theory Spec2Isabelle
  imports Complex_Main
begin

section \<open>Pipeline diagnostics (components/PipelineDiagram.tsx)\<close>

text \<open>
  The payload type \<open>PipelineMetrics\<close> of types/api.ts: every sub-object and every field is
  optional, which is \<open>option\<close> here (\<open>None\<close> is a missing, undefined or null property).
  Frame, window and sample counts are \<open>int\<close> (the TypeScript type is \<open>number\<close>; nothing
  below depends on a count being non-negative), the signal duration is \<open>real\<close>. The
  elements of \<open>face.windows\<close> are \<open>unknown\<close> in the source and only counted, so they are
  \<open>unit\<close>. A \<open>Record<string, number>\<close> is an association list in the order of
  \<open>Object.entries\<close>; a value of \<open>samples_per_region\<close> may be null (the source reads it
  with \<open>b ?? 0\<close>).
\<close>

datatype StageStatus = Ok | Warning | Fail

record Ingest =
  num_windows :: "int option"

record Face =
  windows :: "unit list option"

record Roi =
  total_frames :: "int option"
  frames_with_all_regions_valid :: "int option"
  frames_per_region :: "(string \<times> int) list option"

record Rppg =
  samples_per_region :: "(string \<times> int option) list option"
  duration_seconds :: "real option"

record PipelineMetrics =
  ingest :: "Ingest option"
  face :: "Face option"
  roi :: "Roi option"
  rppg :: "Rppg option"

text \<open>
  A \<open>Stage\<close> of the diagram. The \<open>summary\<close> and \<open>detail\<close> members of the source are
  display text built from the same numbers after the status is fixed; they are not part
  of the embedding.
\<close>

record Stage =
  stage_id :: string
  label :: string
  status :: StageStatus

text \<open>The operator \<open>a ?? d\<close> of the source: \<open>d\<close> when \<open>a\<close> is missing.\<close>

definition nullish :: "'a option \<Rightarrow> 'a \<Rightarrow> 'a" where
  "nullish a d = (case a of None \<Rightarrow> d | Some v \<Rightarrow> v)"

text \<open>The optional chain \<open>o?.f\<close>: missing when \<open>o\<close> is missing.\<close>

definition chain :: "'o option \<Rightarrow> ('o \<Rightarrow> 'a option) \<Rightarrow> 'a option" where
  "chain ob f = (case ob of None \<Rightarrow> None | Some r \<Rightarrow> f r)"

definition getIngestStage :: "PipelineMetrics \<Rightarrow> Stage" where
  "getIngestStage m =
     (let n = nullish (chain (ingest m) num_windows) 0 in
      \<lparr>stage_id = ''ingest'', label = ''Ingest'',
       status = (if n \<ge> 1 then Ok else Fail)\<rparr>)"

definition getFaceStage :: "PipelineMetrics \<Rightarrow> Stage" where
  "getFaceStage m =
     (let ws = nullish (chain (face m) windows) [];
          n = length ws in
      \<lparr>stage_id = ''face'', label = ''Face'',
       status = (if n \<ge> 1 then Ok else Fail)\<rparr>)"

text \<open>
  \<open>m.roi ?? {}\<close>: a missing sub-object is read as the object with no field.
\<close>

definition getRoiStage :: "PipelineMetrics \<Rightarrow> Stage" where
  "getRoiStage m =
     (let r = nullish (roi m)
                \<lparr>total_frames = None, frames_with_all_regions_valid = None,
                 frames_per_region = None\<rparr>;
          total = nullish (total_frames r) 0;
          allValid = nullish (frames_with_all_regions_valid r) 0 in
      \<lparr>stage_id = ''roi'', label = ''ROI'',
       status = (if total = 0 then Fail else if allValid > 0 then Ok else Warning)\<rparr>)"

text \<open>
  \<open>Object.values(samples).reduce((a, b) => a + (b ?? 0), 0)\<close> is a left fold from 0.
  The status starts as \<open>fail\<close> and is overwritten by the two tests in turn.
\<close>

definition totalSamples :: "(string \<times> int option) list \<Rightarrow> int" where
  "totalSamples samples = foldl (\<lambda>a b. a + nullish b 0) 0 (map snd samples)"

definition getRppgStage :: "PipelineMetrics \<Rightarrow> Stage" where
  "getRppgStage m =
     (let r = nullish (rppg m) \<lparr>samples_per_region = None, duration_seconds = None\<rparr>;
          duration = nullish (duration_seconds r) 0;
          samples = nullish (samples_per_region r) [];
          total = totalSamples samples in
      \<lparr>stage_id = ''rppg'', label = ''rPPG'',
       status = (if duration > 0 \<and> total > 0 then Ok
                 else if duration = 0 \<and> total = 0 then Warning
                 else Fail)\<rparr>)"

text \<open>The \<open>stages\<close> array of the component \<open>PipelineDiagram\<close>: all four, in this order.\<close>

definition PipelineDiagram :: "PipelineMetrics \<Rightarrow> Stage list" where
  "PipelineDiagram metrics =
     [getIngestStage metrics, getFaceStage metrics, getRoiStage metrics, getRppgStage metrics]"

subsection \<open>The quantities the specification names\<close>

text \<open>
  The specification speaks of \<open>durationSeconds\<close>, of the sum of \<open>samplesPerRegion\<close>, of
  \<open>totalFrames\<close> and of \<open>framesWithAllRegionsValid\<close>, each read as zero when missing.
\<close>

definition durationSeconds :: "PipelineMetrics \<Rightarrow> real" where
  "durationSeconds m =
     (case rppg m of None \<Rightarrow> 0
      | Some r \<Rightarrow> (case duration_seconds r of None \<Rightarrow> 0 | Some d \<Rightarrow> d))"

definition samplesPerRegion :: "PipelineMetrics \<Rightarrow> (string \<times> int option) list" where
  "samplesPerRegion m =
     (case rppg m of None \<Rightarrow> []
      | Some r \<Rightarrow> (case samples_per_region r of None \<Rightarrow> [] | Some s \<Rightarrow> s))"

definition sumSamples :: "PipelineMetrics \<Rightarrow> int" where
  "sumSamples m = sum_list (map (\<lambda>(k, v). case v of None \<Rightarrow> 0 | Some c \<Rightarrow> c) (samplesPerRegion m))"

definition totalFrames :: "PipelineMetrics \<Rightarrow> int" where
  "totalFrames m =
     (case roi m of None \<Rightarrow> 0
      | Some r \<Rightarrow> (case total_frames r of None \<Rightarrow> 0 | Some n \<Rightarrow> n))"

definition framesWithAllRegionsValid :: "PipelineMetrics \<Rightarrow> int" where
  "framesWithAllRegionsValid m =
     (case roi m of None \<Rightarrow> 0
      | Some r \<Rightarrow> (case frames_with_all_regions_valid r of None \<Rightarrow> 0 | Some n \<Rightarrow> n))"

text \<open>
  The payload with every missing sub-object and field filled in as zero or empty.
\<close>

definition zeroFilled :: "PipelineMetrics \<Rightarrow> PipelineMetrics" where
  "zeroFilled m =
     \<lparr>ingest = Some \<lparr>num_windows =
          Some (case ingest m of None \<Rightarrow> 0
                | Some i \<Rightarrow> (case num_windows i of None \<Rightarrow> 0 | Some n \<Rightarrow> n))\<rparr>,
      face = Some \<lparr>windows =
          Some (case face m of None \<Rightarrow> []
                | Some f \<Rightarrow> (case windows f of None \<Rightarrow> [] | Some ws \<Rightarrow> ws))\<rparr>,
      roi = Some \<lparr>total_frames = Some (totalFrames m),
          frames_with_all_regions_valid = Some (framesWithAllRegionsValid m),
          frames_per_region =
            Some (case roi m of None \<Rightarrow> []
                  | Some r \<Rightarrow> (case frames_per_region r of None \<Rightarrow> [] | Some p \<Rightarrow> p))\<rparr>,
      rppg = Some \<lparr>samples_per_region =
            Some (map (\<lambda>(k, v). (k, Some (case v of None \<Rightarrow> 0 | Some c \<Rightarrow> c)))
                    (samplesPerRegion m)),
          duration_seconds = Some (durationSeconds m)\<rparr>\<rparr>"

definition emptyMetrics :: PipelineMetrics where
  "emptyMetrics = \<lparr>ingest = None, face = None, roi = None, rppg = None\<rparr>"

section \<open>Liveness panel (component LivenessPanel, in the listing ui/README.md)\<close>

text \<open>
  The parts of \<open>MetricsSummary\<close> that the panel reads. Scores, thresholds and feature
  values are \<open>real\<close> (the source compares JavaScript numbers; rounding of the literals
  0.7, 0.4, 0.45 and not-a-number are outside the model). \<open>features\<close> of the scoring
  breakdown is a \<open>Record\<close> read through \<open>Object.entries\<close>: an association list.
  \<open>LivenessFeatures\<close> keeps the three of its fields that the panel prints.
\<close>

record LivenessFeatureDetail =
  detail_value :: real
  detail_weight :: real

record ScoringBreakdown =
  liveness_score :: "real option"
  base_score :: "real option"
  gate_factor :: "real option"
  tau_auth :: "real option"
  features :: "(string \<times> LivenessFeatureDetail) list option"

record LivenessFeatures =
  hr_plausibility :: real
  hrv_sdnn_ms :: real
  inter_region_coherence :: real

record Sqi =
  aggregate :: "real option"

record MetricsFeatures =
  liveness :: "LivenessFeatures option"

record MetricsSummary =
  sqi :: "Sqi option"
  ms_features :: "MetricsFeatures option"
  scoring :: "ScoringBreakdown option"

record FeatureBar =
  bar_label :: string
  bar_value :: real
  bar_weight :: real

text \<open>
  The lookup table \<open>labels\<close> of \<open>getFeatureBars\<close> (its \<open>description\<close> column is tooltip
  text and is left out); \<open>labels[key]?.label ?? key\<close> falls back to the key.
\<close>

definition labels :: "(string \<times> string) list" where
  "labels =
     [(''hr_plausibility'', ''Heart Rate Plausibility''),
      (''spectral_concentration'', ''Spectral Concentration''),
      (''spectral_sharpness'', ''Spectral Sharpness (Q Factor)''),
      (''inter_region_coherence'', ''Inter-Region Coherence''),
      (''phase_coherence'', ''Pulse Transit Time''),
      (''periodicity'', ''Signal Periodicity''),
      (''harmonic_structure'', ''Harmonic Structure''),
      (''hrv'', ''Heart Rate Variability''),
      (''temporal_stability'', ''Temporal HR Stability''),
      (''respiratory'', ''Respiratory Modulation'')]"

definition getFeatureBars :: "MetricsSummary \<Rightarrow> FeatureBar list" where
  "getFeatureBars metricsSummary =
     (case chain (scoring metricsSummary) features of
        None \<Rightarrow> []
      | Some fs \<Rightarrow>
          map (\<lambda>(key, detail).
                 \<lparr>bar_label = nullish (map_of labels key) key,
                  bar_value = detail_value detail,
                  bar_weight = detail_weight detail\<rparr>) fs)"

definition barColor :: "real \<Rightarrow> string" where
  "barColor v =
     (if v \<ge> 0.7 then ''bg-emerald-500 shadow-[0_0_12px_rgba(16,185,129,0.5)]''
      else if v \<ge> 0.4 then ''bg-amber-500 shadow-[0_0_12px_rgba(245,158,11,0.5)]''
      else ''bg-red-500 shadow-[0_0_12px_rgba(239,68,68,0.5)]'')"

definition valueLabel :: "real \<Rightarrow> string" where
  "valueLabel v =
     (if v \<ge> 0.7 then ''Strong''
      else if v \<ge> 0.4 then ''Moderate''
      else if v > 0 then ''Weak''
      else ''None'')"

text \<open>The class of the percentage badge, chosen inline in the \<open>bars.map\<close> of the panel.\<close>

definition badgeClass :: "real \<Rightarrow> string" where
  "badgeClass v =
     (if v \<ge> 0.7 then ''text-emerald-400 bg-emerald-500/10''
      else if v \<ge> 0.4 then ''text-amber-400 bg-amber-500/10''
      else ''text-red-400 bg-red-500/10'')"

text \<open>
  What the panel renders, as data. Percentages are printed from the numbers kept here
  (\<open>toFixed\<close> is not modelled). The gate paragraph carries the factor and, when
  \<open>base_score\<close> is defined, the pair of base score and gated liveness score.
\<close>

record GateInfo =
  gate_shown :: real
  base_and_gated :: "(real \<times> real) option"

record ScoreBlock =
  score_shown :: real
  human_leaning :: bool
  threshold_mark :: "real option"
  gate_info :: "GateInfo option"

record KeyMetrics =
  heart_rate_valid :: bool
  hrv_shown :: "real option"
  coherence_shown :: real
  signal_quality :: "real option"

record BarView =
  view_label :: string
  view_weight :: real
  view_value :: real
  view_badge :: string
  view_text :: string
  view_color :: string

record Panel =
  score_block :: "ScoreBlock option"
  key_metrics :: "KeyMetrics option"
  breakdown :: "BarView list"

text \<open>\<open>LivenessPanel\<close> returns \<open>null\<close> (here \<open>None\<close>) or the panel.\<close>

definition LivenessPanel :: "MetricsSummary \<Rightarrow> Panel option" where
  "LivenessPanel metricsSummary =
     (let bars = getFeatureBars metricsSummary;
          lv = chain (ms_features metricsSummary) liveness;
          sc = scoring metricsSummary;
          sq = sqi metricsSummary in
      if length bars = 0 \<and> lv = None then None
      else
        let livenessScore = chain sc liveness_score;
            threshold = chain sc tau_auth in
        Some \<lparr>score_block =
                (case livenessScore of
                   None \<Rightarrow> None
                 | Some ls \<Rightarrow>
                     Some \<lparr>score_shown = ls,
                           human_leaning = (ls \<ge> nullish threshold 0.45),
                           threshold_mark = threshold,
                           gate_info =
                             (case chain sc gate_factor of
                                None \<Rightarrow> None
                              | Some g \<Rightarrow>
                                  if g < 1.0 then
                                    Some \<lparr>gate_shown = g,
                                          base_and_gated =
                                            (case chain sc base_score of
                                               None \<Rightarrow> None
                                             | Some b \<Rightarrow> Some (b, ls))\<rparr>
                                  else None)\<rparr>),
              key_metrics =
                (case lv of
                   None \<Rightarrow> None
                 | Some l \<Rightarrow>
                     Some \<lparr>heart_rate_valid = (hr_plausibility l \<ge> 1),
                           hrv_shown = (if hrv_sdnn_ms l > 0 then Some (hrv_sdnn_ms l) else None),
                           coherence_shown = inter_region_coherence l,
                           signal_quality = chain sq aggregate\<rparr>),
              breakdown =
                (if length bars > 0 then
                   map (\<lambda>b. \<lparr>view_label = bar_label b, view_weight = bar_weight b,
                              view_value = bar_value b,
                              view_badge = badgeClass (bar_value b),
                              view_text = valueLabel (bar_value b),
                              view_color = barColor (bar_value b)\<rparr>) bars
                 else [])\<rparr>)"

text \<open>The gate paragraph of the rendered output, if there is one.\<close>

definition gateMessage :: "MetricsSummary \<Rightarrow> GateInfo option" where
  "gateMessage metricsSummary =
     (case LivenessPanel metricsSummary of
        None \<Rightarrow> None
      | Some p \<Rightarrow> (case score_block p of None \<Rightarrow> None | Some sb \<Rightarrow> gate_info sb))"

text \<open>The two conditions on the input that the claims about the panel speak of.\<close>

definition featuresAbsentOrEmpty :: "MetricsSummary \<Rightarrow> bool" where
  "featuresAbsentOrEmpty metricsSummary =
     (case scoring metricsSummary of
        None \<Rightarrow> True
      | Some s \<Rightarrow> (case features s of None \<Rightarrow> True | Some fs \<Rightarrow> fs = []))"

definition livenessAbsent :: "MetricsSummary \<Rightarrow> bool" where
  "livenessAbsent metricsSummary =
     (case ms_features metricsSummary of None \<Rightarrow> True | Some f \<Rightarrow> liveness f = None)"

section \<open>Evidence viewer (components/EvidenceViewer.tsx)\<close>

text \<open>
  \<open>EvidenceIndex.artifacts\<close> has four known keys and an index signature for any other
  key; \<open>other_keys\<close> lists the other keys that are present (the viewer only counts them,
  through \<open>Object.keys\<close>). \<open>signed_urls\<close> is a \<open>Record<string, string>\<close> read by key.
\<close>

record Artifacts =
  summary :: "string option"
  rppg_traces :: "string list option"
  rppg_spectra :: "string list option"
  roi_masks :: "string list option"
  other_keys :: "string list"

record EvidenceResponse =
  artifacts :: Artifacts
  signed_urls :: "string \<rightharpoonup> string"

text \<open>
  An image the viewer renders: the path it came from, the URL used as \<open>src\<close> and the
  number \<open>idx + 1\<close> printed in its alternative text.
\<close>

record Entry =
  entry_path :: string
  entry_src :: string
  entry_no :: nat

text \<open>
  A section of the page: not rendered at all, rendered as the amber notice
  ("found in index but signed URLs not available"), or rendered as a grid of images.
\<close>

datatype SectionView = Hidden | Unavailable | Grid "Entry list"

datatype SummaryView = NoSummary | DownloadLink string | PathOnly string

record EvidenceView =
  roi_masks_view :: SectionView
  rppg_traces_view :: SectionView
  rppg_spectra_view :: SectionView
  summary_view :: SummaryView
  no_artifacts_notice :: bool

text \<open>
  \<open>evidence.signed_urls[p]\<close> used as a condition: a missing entry and the empty string
  are both falsy.
\<close>

definition urlFor :: "(string \<rightharpoonup> string) \<Rightarrow> string \<Rightarrow> string option" where
  "urlFor urls p = (case urls p of None \<Rightarrow> None | Some u \<Rightarrow> if u = [] then None else Some u)"

text \<open>
  \<open>paths.map((p, idx) => ...)\<close> with \<open>return null\<close> for a path that has no URL or whose
  image failed to load (\<open>imageErrors\<close>); a null element renders nothing. The loop keeps
  the running index.
\<close>

fun renderEntries :: "(string \<rightharpoonup> string) \<Rightarrow> string set \<Rightarrow> nat \<Rightarrow> string list \<Rightarrow> Entry list" where
  "renderEntries urls imageErrors idx [] = []"
| "renderEntries urls imageErrors idx (p # ps) =
     (case urlFor urls p of
        None \<Rightarrow> renderEntries urls imageErrors (idx + 1) ps
      | Some signedUrl \<Rightarrow>
          if p \<in> imageErrors then renderEntries urls imageErrors (idx + 1) ps
          else \<lparr>entry_path = p, entry_src = signedUrl, entry_no = idx + 1\<rparr>
                 # renderEntries urls imageErrors (idx + 1) ps)"

definition roiMasksSection :: "EvidenceResponse \<Rightarrow> string set \<Rightarrow> SectionView" where
  "roiMasksSection evidence imageErrors =
     (case roi_masks (artifacts evidence) of
        None \<Rightarrow> Hidden
      | Some masks \<Rightarrow>
          if length masks > 0 then
            (let validMasks =
               filter (\<lambda>maskPath. urlFor (signed_urls evidence) maskPath \<noteq> None
                                   \<and> maskPath \<notin> imageErrors) masks in
             if length validMasks = 0 then Unavailable
             else Grid (renderEntries (signed_urls evidence) imageErrors 0 masks))
          else Hidden)"

definition rppgTracesSection :: "EvidenceResponse \<Rightarrow> string set \<Rightarrow> SectionView" where
  "rppgTracesSection evidence imageErrors =
     (case rppg_traces (artifacts evidence) of
        None \<Rightarrow> Hidden
      | Some traces \<Rightarrow>
          if length traces > 0
          then Grid (renderEntries (signed_urls evidence) imageErrors 0 traces)
          else Hidden)"

definition rppgSpectraSection :: "EvidenceResponse \<Rightarrow> string set \<Rightarrow> SectionView" where
  "rppgSpectraSection evidence imageErrors =
     (case rppg_spectra (artifacts evidence) of
        None \<Rightarrow> Hidden
      | Some spectra \<Rightarrow>
          if length spectra > 0
          then Grid (renderEntries (signed_urls evidence) imageErrors 0 spectra)
          else Hidden)"

definition summarySection :: "EvidenceResponse \<Rightarrow> SummaryView" where
  "summarySection evidence =
     (case summary (artifacts evidence) of
        None \<Rightarrow> NoSummary
      | Some s \<Rightarrow>
          if s = [] then NoSummary
          else (case urlFor (signed_urls evidence) s of
                  Some u \<Rightarrow> DownloadLink u
                | None \<Rightarrow> PathOnly s))"

text \<open>\<open>Object.keys(evidence.index.artifacts)\<close>: the keys that are present.\<close>

definition artifactKeys :: "Artifacts \<Rightarrow> string list" where
  "artifactKeys a =
     (case summary a of None \<Rightarrow> [] | Some _ \<Rightarrow> [''summary''])
     @ (case rppg_traces a of None \<Rightarrow> [] | Some _ \<Rightarrow> [''rppg_traces''])
     @ (case rppg_spectra a of None \<Rightarrow> [] | Some _ \<Rightarrow> [''rppg_spectra''])
     @ (case roi_masks a of None \<Rightarrow> [] | Some _ \<Rightarrow> [''roi_masks''])
     @ other_keys a"

definition EvidenceViewer :: "EvidenceResponse \<Rightarrow> string set \<Rightarrow> EvidenceView" where
  "EvidenceViewer evidence imageErrors =
     \<lparr>roi_masks_view = roiMasksSection evidence imageErrors,
      rppg_traces_view = rppgTracesSection evidence imageErrors,
      rppg_spectra_view = rppgSpectraSection evidence imageErrors,
      summary_view = summarySection evidence,
      no_artifacts_notice = (length (artifactKeys (artifacts evidence)) = 0)\<rparr>"

text \<open>The images of a section, whatever its state.\<close>

fun resolved :: "SectionView \<Rightarrow> Entry list" where
  "resolved Hidden = []"
| "resolved Unavailable = []"
| "resolved (Grid es) = es"

text \<open>
  The paths of a category, none when the category is absent, and the test that a path
  has a usable URL and no recorded load error.
\<close>

definition pathsOf :: "string list option \<Rightarrow> string list" where
  "pathsOf c = (case c of None \<Rightarrow> [] | Some ps \<Rightarrow> ps)"

definition resolvable :: "EvidenceResponse \<Rightarrow> string set \<Rightarrow> string \<Rightarrow> bool" where
  "resolvable evidence imageErrors p =
     (urlFor (signed_urls evidence) p \<noteq> None \<and> p \<notin> imageErrors)"

section \<open>Polling hooks (usePolling in the listing components/ResultCard.tsx, hooks/useAnalysis.ts)\<close>

text \<open>
  One run of a hook's effect is a transition system. The effect body runs at mount; after
  that the browser delivers events to the callbacks the effect registered:
  \<^item> \<open>Tick\<close>: the interval timer fires (the \<open>k\<close>-th firing of \<open>setInterval(f, interval)\<close>
    happens \<open>k * interval\<close> after the timer was set, whatever the callbacks do);
  \<^item> \<open>Resolve v\<close>: a probe that is in flight completes with the value \<open>v\<close>;
  \<^item> \<open>Reject e\<close>: a probe that is in flight fails; \<open>e\<close> is the message of the thrown
    \<open>Error\<close>, or \<open>None\<close> when the thrown value is not an \<open>Error\<close>;
  \<^item> \<open>Unmount\<close>: React runs the cleanup function of the effect.
  The probe is asynchronous: its outcome is always a later event. A \<open>Tick\<close> after
  \<open>clearInterval\<close> and an outcome when no probe is in flight cannot happen; the step
  functions leave the state as it is on them.

  The state holds what the hook returns (\<open>isLoading\<close>, \<open>error\<close> and the data), the
  variables of the effect's closure, and the bookkeeping of the environment:
  \<open>timerArmed\<close> (the interval is set and not cleared), \<open>pending\<close> (probes in flight),
  \<open>ticks\<close> (firings so far) and \<open>issued\<close> (for every probe issued, the number of the
  firing that issued it, 0 for the probe of the effect body; latest first).
\<close>

datatype 'a event = Tick | Resolve 'a | Reject "string option" | Unmount

record Hook =
  isLoading :: bool
  error :: "string option"
  isMounted :: bool
  timerArmed :: bool
  pending :: nat
  ticks :: nat
  issued :: "nat list"

text \<open>Calling the probe (\<open>fetchFn()\<close>, \<open>api.getAnalysis(analysisId)\<close>): one more in flight.\<close>

definition issueProbe :: "'h Hook_scheme \<Rightarrow> 'h Hook_scheme" where
  "issueProbe s = s\<lparr>pending := pending s + 1, issued := ticks s # issued s\<rparr>"

subsection \<open>usePolling\<close>

record 'a Polling = Hook +
  data :: "'a option"
  shouldStopRef :: bool
  intervalRef :: "nat option"

text \<open>\<open>if (intervalRef.current) clearInterval(intervalRef.current)\<close>\<close>

definition clearIntervalRef :: "'a Polling \<Rightarrow> 'a Polling" where
  "clearIntervalRef s = (case intervalRef s of None \<Rightarrow> s | Some h \<Rightarrow> s\<lparr>timerArmed := False\<rparr>)"

text \<open>
  The effect body on a first mount (\<open>useState\<close> and \<open>useRef\<close> hold their initial values):
  the first probe is issued, then the interval is set up, since \<open>shouldStopRef.current\<close>
  is still false.
\<close>

definition usePolling_mount :: "'a Polling" where
  "usePolling_mount =
     (let s0 = \<lparr>isLoading = True, error = None, isMounted = True, timerArmed = False,
                pending = 0, ticks = 0, issued = [],
                data = None, shouldStopRef = False, intervalRef = None\<rparr>;
          s1 = issueProbe s0
      in if \<not> shouldStopRef s1 then s1\<lparr>intervalRef := Some 1, timerArmed := True\<rparr> else s1)"

text \<open>
  The continuation of \<open>poll\<close> after \<open>await fetchFn()\<close> (the \<open>try\<close> and the \<open>catch\<close> branch),
  the interval callback and the cleanup.
\<close>

fun usePolling_step :: "('a \<Rightarrow> bool) \<Rightarrow> 'a Polling \<Rightarrow> 'a event \<Rightarrow> 'a Polling" where
  "usePolling_step condition s (Resolve result) =
     (if pending s = 0 then s
      else
        let s1 = s\<lparr>pending := pending s - 1\<rparr> in
        if isMounted s1 then
          (let s2 = s1\<lparr>data := Some result, isLoading := False, error := None\<rparr> in
           if condition result then clearIntervalRef (s2\<lparr>shouldStopRef := True\<rparr>) else s2)
        else s1)"
| "usePolling_step condition s (Reject err) =
     (if pending s = 0 then s
      else
        let s1 = s\<lparr>pending := pending s - 1\<rparr> in
        if isMounted s1 then
          clearIntervalRef
            (s1\<lparr>error := Some (case err of Some message \<Rightarrow> message | None \<Rightarrow> ''Polling error''),
                isLoading := False, shouldStopRef := True\<rparr>)
        else s1)"
| "usePolling_step condition s Tick =
     (if timerArmed s then
        (let s1 = s\<lparr>ticks := ticks s + 1\<rparr> in
         if \<not> shouldStopRef s1 then issueProbe s1 else s1)
      else s)"
| "usePolling_step condition s Unmount =
     clearIntervalRef (s\<lparr>isMounted := False\<rparr>)"

definition usePolling_run :: "('a \<Rightarrow> bool) \<Rightarrow> 'a Polling \<Rightarrow> 'a event list \<Rightarrow> 'a Polling" where
  "usePolling_run condition s es = foldl (usePolling_step condition) s es"

text \<open>
  The events whose handling sets \<open>shouldStopRef.current = true\<close>: a result that meets the
  stop condition, and any failure.
\<close>

fun stopsPolling :: "('a \<Rightarrow> bool) \<Rightarrow> 'a event \<Rightarrow> bool" where
  "stopsPolling condition (Resolve result) = condition result"
| "stopsPolling condition (Reject err) = True"
| "stopsPolling condition Tick = False"
| "stopsPolling condition Unmount = False"

text \<open>Every firing in the run finds no probe in flight (each probe was faster than the interval).\<close>

fun ticksFindNoProbe :: "('a \<Rightarrow> bool) \<Rightarrow> 'a Polling \<Rightarrow> 'a event list \<Rightarrow> bool" where
  "ticksFindNoProbe condition s [] = True"
| "ticksFindNoProbe condition s (e # es) =
     ((e \<noteq> Tick \<or> pending s = 0) \<and> ticksFindNoProbe condition (usePolling_step condition s e) es)"

subsection \<open>useAnalysis\<close>

text \<open>
  The response of \<open>api.getAnalysis\<close>; the hook reads its \<open>status\<close> member only
  (\<open>job_status\<close> here), the other optional members are left out.
\<close>

datatype AnalysisStatus = Queued | Running | Done | Failed

record AnalysisStatusResponse =
  analysis_id :: string
  job_status :: AnalysisStatus

record Analysis = Hook +
  statusState :: "AnalysisStatusResponse option"
  intervalId :: "nat option"

text \<open>\<open>if (intervalId) clearInterval(intervalId)\<close>\<close>

definition clearIntervalId :: "Analysis \<Rightarrow> Analysis" where
  "clearIntervalId s = (case intervalId s of None \<Rightarrow> s | Some h \<Rightarrow> s\<lparr>timerArmed := False\<rparr>)"

text \<open>
  The effect body: \<open>fetchStatus()\<close>, then \<open>intervalId = window.setInterval(...)\<close>. The
  effect depends on \<open>[analysisId]\<close> only, so the interval callback keeps the \<open>status\<close>
  constant of the render that ran the effect: it is the parameter \<open>captured\<close> of the step
  function, \<open>None\<close> on a first mount (\<open>useState(null)\<close>).
\<close>

definition useAnalysis_mount :: Analysis where
  "useAnalysis_mount =
     (let s0 = \<lparr>isLoading = True, error = None, isMounted = True, timerArmed = False,
                pending = 0, ticks = 0, issued = [],
                statusState = None, intervalId = None\<rparr>;
          s1 = issueProbe s0
      in s1\<lparr>intervalId := Some 1, timerArmed := True\<rparr>)"

text \<open>
  The same effect body in any render: when \<open>analysisId\<close> changes, React runs the cleanup
  of the previous effect and then the effect again, in a render whose \<open>status\<close>,
  \<open>isLoading\<close> and \<open>error\<close> are what the previous run left; the new closure has its own
  \<open>isMounted\<close> and \<open>intervalId\<close>, and the outcomes of earlier probes go to the old closure.
  The first mount is the case \<open>(None, True, None)\<close>.
\<close>

definition useAnalysis_effect ::
  "AnalysisStatusResponse option \<Rightarrow> bool \<Rightarrow> string option \<Rightarrow> Analysis" where
  "useAnalysis_effect status0 isLoading0 error0 =
     (let s0 = \<lparr>isLoading = isLoading0, error = error0, isMounted = True, timerArmed = False,
                pending = 0, ticks = 0, issued = [],
                statusState = status0, intervalId = None\<rparr>;
          s1 = issueProbe s0
      in s1\<lparr>intervalId := Some 1, timerArmed := True\<rparr>)"

definition terminal :: "AnalysisStatus \<Rightarrow> bool" where
  "terminal st = (st = Done \<or> st = Failed)"

fun useAnalysis_step ::
  "AnalysisStatusResponse option \<Rightarrow> Analysis \<Rightarrow> AnalysisStatusResponse event \<Rightarrow> Analysis" where
  "useAnalysis_step captured s (Resolve result) =
     (if pending s = 0 then s
      else
        let s1 = s\<lparr>pending := pending s - 1\<rparr> in
        if isMounted s1 then
          (let s2 = s1\<lparr>statusState := Some result, isLoading := False, error := None\<rparr> in
           if job_status result = Done \<or> job_status result = Failed
           then clearIntervalId s2 else s2)
        else s1)"
| "useAnalysis_step captured s (Reject err) =
     (if pending s = 0 then s
      else
        let s1 = s\<lparr>pending := pending s - 1\<rparr> in
        if isMounted s1 then
          clearIntervalId
            (s1\<lparr>error := Some (case err of Some message \<Rightarrow> message
                                 | None \<Rightarrow> ''Failed to fetch analysis''),
                isLoading := False\<rparr>)
        else s1)"
| "useAnalysis_step captured s Tick =
     (if timerArmed s then
        (let s1 = s\<lparr>ticks := ticks s + 1\<rparr> in
         if isMounted s1 \<and>
            (case captured of
               None \<Rightarrow> False
             | Some st \<Rightarrow> job_status st \<noteq> Done \<and> job_status st \<noteq> Failed)
         then issueProbe s1 else s1)
      else s)"
| "useAnalysis_step captured s Unmount =
     clearIntervalId (s\<lparr>isMounted := False\<rparr>)"

definition useAnalysis_run ::
  "AnalysisStatusResponse option \<Rightarrow> Analysis \<Rightarrow> AnalysisStatusResponse event list \<Rightarrow> Analysis" where
  "useAnalysis_run captured s es = foldl (useAnalysis_step captured) s es"

section \<open>Pipeline diagnostics: results\<close>

lemma foldl_add_shift:
  "foldl (\<lambda>a b. a + nullish b 0) (acc :: int) xs = acc + foldl (\<lambda>a b. a + nullish b 0) 0 xs"
proof (induction xs arbitrary: acc)
  case Nil
  show ?case by simp
next
  case (Cons x xs)
  have "foldl (\<lambda>a b. a + nullish b 0) acc (x # xs)
        = foldl (\<lambda>a b. a + nullish b 0) (acc + nullish x 0) xs"
    by simp
  also have "\<dots> = (acc + nullish x 0) + foldl (\<lambda>a b. a + nullish b 0) 0 xs"
    by (rule Cons.IH)
  also have "foldl (\<lambda>a b. a + nullish b 0) (0 + nullish x 0) xs
        = (0 + nullish x 0) + foldl (\<lambda>a b. a + nullish b 0) 0 xs"
    by (rule Cons.IH)
  ultimately show ?case by simp
qed

lemma totalSamples_sum:
  "totalSamples s = sum_list (map (\<lambda>(k, v). case v of None \<Rightarrow> 0 | Some c \<Rightarrow> c) s)"
proof (induction s)
  case Nil
  show ?case by (simp add: totalSamples_def)
next
  case (Cons kv s)
  obtain k v where kv: "kv = (k, v)" by (cases kv)
  have "totalSamples (kv # s) = foldl (\<lambda>a b. a + nullish b 0) (nullish v 0) (map snd s)"
    by (simp add: totalSamples_def kv)
  also have "\<dots> = nullish v 0 + totalSamples s"
    unfolding totalSamples_def by (rule foldl_add_shift)
  finally show ?case
    by (simp add: Cons.IH kv nullish_def split: option.splits)
qed

lemma rppg_duration:
  "nullish (duration_seconds (nullish (rppg m)
      \<lparr>samples_per_region = None, duration_seconds = None\<rparr>)) 0 = durationSeconds m"
  by (simp add: nullish_def durationSeconds_def split: option.splits)

lemma rppg_total:
  "totalSamples (nullish (samples_per_region (nullish (rppg m)
      \<lparr>samples_per_region = None, duration_seconds = None\<rparr>)) []) = sumSamples m"
  by (simp add: totalSamples_sum sumSamples_def samplesPerRegion_def nullish_def
      split: option.splits)

lemma rppg_status:
  "status (getRppgStage m) =
     (if durationSeconds m > 0 \<and> sumSamples m > 0 then Ok
      else if durationSeconds m = 0 \<and> sumSamples m = 0 then Warning else Fail)"
  unfolding getRppgStage_def Let_def rppg_duration rppg_total by simp

lemma roi_status:
  "status (getRoiStage m) =
     (if totalFrames m = 0 then Fail
      else if framesWithAllRegionsValid m > 0 then Ok else Warning)"
  by (simp add: getRoiStage_def Let_def nullish_def totalFrames_def
      framesWithAllRegionsValid_def split: option.splits)

text \<open>
  Claim C3. For every pipeline-metrics payload the rPPG stage is Ok when the duration is
  positive and the sum of the per-region sample counts is positive, Warning when both
  are zero, and Fail in every other case.
\<close>

theorem rppg_stage_status:
  "(durationSeconds m > 0 \<and> sumSamples m > 0 \<longrightarrow> status (getRppgStage m) = Ok) \<and>
   (durationSeconds m = 0 \<and> sumSamples m = 0 \<longrightarrow> status (getRppgStage m) = Warning) \<and>
   (\<not> (durationSeconds m > 0 \<and> sumSamples m > 0) \<and>
    \<not> (durationSeconds m = 0 \<and> sumSamples m = 0) \<longrightarrow> status (getRppgStage m) = Fail)"
  by (simp add: rppg_status)

theorem rppg_stage_status_witness:
  "status (getRppgStage (emptyMetrics\<lparr>rppg := Some \<lparr>samples_per_region = Some [],
       duration_seconds = Some 0\<rparr>\<rparr>)) = Warning \<and>
   status (getRppgStage (emptyMetrics\<lparr>rppg := Some \<lparr>samples_per_region =
       Some [(''forehead'', Some 500)], duration_seconds = Some 12.3\<rparr>\<rparr>)) = Ok \<and>
   status (getRppgStage (emptyMetrics\<lparr>rppg := Some \<lparr>samples_per_region =
       Some [(''forehead'', Some 5)], duration_seconds = Some 0\<rparr>\<rparr>)) = Fail"
proof -
  let ?w = "emptyMetrics\<lparr>rppg := Some \<lparr>samples_per_region = Some [],
       duration_seconds = Some 0\<rparr>\<rparr>"
  let ?k = "emptyMetrics\<lparr>rppg := Some \<lparr>samples_per_region =
       Some [(''forehead'', Some 500)], duration_seconds = Some 12.3\<rparr>\<rparr>"
  let ?f = "emptyMetrics\<lparr>rppg := Some \<lparr>samples_per_region =
       Some [(''forehead'', Some 5)], duration_seconds = Some 0\<rparr>\<rparr>"
  have w: "durationSeconds ?w = 0 \<and> sumSamples ?w = 0"
    by (simp add: durationSeconds_def sumSamples_def samplesPerRegion_def)
  have k: "durationSeconds ?k > 0 \<and> sumSamples ?k > 0"
    by (simp add: durationSeconds_def sumSamples_def samplesPerRegion_def)
  have f: "\<not> (durationSeconds ?f > 0 \<and> sumSamples ?f > 0) \<and>
           \<not> (durationSeconds ?f = 0 \<and> sumSamples ?f = 0)"
    by (simp add: durationSeconds_def sumSamples_def samplesPerRegion_def)
  from w rppg_stage_status [of ?w] have 1: "status (getRppgStage ?w) = Warning" by blast
  from k rppg_stage_status [of ?k] have 2: "status (getRppgStage ?k) = Ok" by blast
  from f rppg_stage_status [of ?f] have 3: "status (getRppgStage ?f) = Fail" by blast
  from 1 2 3 show ?thesis by blast
qed

text \<open>
  Claim C4. For every pipeline-metrics payload the ROI stage is Fail when the total
  frame count is zero, Ok when the total is positive and some frame has all regions
  valid, and Warning when the total is positive and no frame has all regions valid.
\<close>

theorem roi_stage_status:
  "(totalFrames m = 0 \<longrightarrow> status (getRoiStage m) = Fail) \<and>
   (totalFrames m > 0 \<and> framesWithAllRegionsValid m > 0 \<longrightarrow> status (getRoiStage m) = Ok) \<and>
   (totalFrames m > 0 \<and> framesWithAllRegionsValid m = 0
      \<longrightarrow> status (getRoiStage m) = Warning)"
  by (simp add: roi_status)

theorem roi_stage_status_witness:
  "status (getRoiStage (emptyMetrics\<lparr>roi := Some \<lparr>total_frames = Some 100,
       frames_with_all_regions_valid = Some 0, frames_per_region = None\<rparr>\<rparr>)) = Warning \<and>
   status (getRoiStage (emptyMetrics\<lparr>roi := Some \<lparr>total_frames = Some 100,
       frames_with_all_regions_valid = Some 10, frames_per_region = None\<rparr>\<rparr>)) = Ok \<and>
   status (getRoiStage (emptyMetrics\<lparr>roi := Some \<lparr>total_frames = Some 0,
       frames_with_all_regions_valid = Some 0, frames_per_region = None\<rparr>\<rparr>)) = Fail"
proof -
  let ?w = "emptyMetrics\<lparr>roi := Some \<lparr>total_frames = Some 100,
       frames_with_all_regions_valid = Some 0, frames_per_region = None\<rparr>\<rparr>"
  let ?k = "emptyMetrics\<lparr>roi := Some \<lparr>total_frames = Some 100,
       frames_with_all_regions_valid = Some 10, frames_per_region = None\<rparr>\<rparr>"
  let ?f = "emptyMetrics\<lparr>roi := Some \<lparr>total_frames = Some 0,
       frames_with_all_regions_valid = Some 0, frames_per_region = None\<rparr>\<rparr>"
  have w: "totalFrames ?w > 0 \<and> framesWithAllRegionsValid ?w = 0"
    by (simp add: totalFrames_def framesWithAllRegionsValid_def)
  have k: "totalFrames ?k > 0 \<and> framesWithAllRegionsValid ?k > 0"
    by (simp add: totalFrames_def framesWithAllRegionsValid_def)
  have f: "totalFrames ?f = 0"
    by (simp add: totalFrames_def)
  from w roi_stage_status [of ?w] have 1: "status (getRoiStage ?w) = Warning" by blast
  from k roi_stage_status [of ?k] have 2: "status (getRoiStage ?k) = Ok" by blast
  from f roi_stage_status [of ?f] have 3: "status (getRoiStage ?f) = Fail" by blast
  from 1 2 3 show ?thesis by blast
qed

text \<open>
  Claim C8. For every payload, whichever of the sub-objects ingest, face, roi and rppg
  and whichever of their fields are missing, the deriver returns the four stages
  ingest, face, roi, rppg with a status each, and they are the stages of the payload in
  which every missing part is zero or empty. The embedded functions have no error
  result: every property read of the source goes through \<open>?.\<close> or \<open>??\<close>.
\<close>

theorem pipeline_reads_missing_as_zero:
  "map stage_id (PipelineDiagram m) = [''ingest'', ''face'', ''roi'', ''rppg''] \<and>
   PipelineDiagram m = PipelineDiagram (zeroFilled m)"
proof -
  have i: "getIngestStage m = getIngestStage (zeroFilled m)"
    by (simp add: getIngestStage_def zeroFilled_def chain_def nullish_def split: option.splits)
  have f: "getFaceStage m = getFaceStage (zeroFilled m)"
    by (simp add: getFaceStage_def zeroFilled_def chain_def nullish_def split: option.splits)
  have zt: "totalFrames (zeroFilled m) = totalFrames m"
    by (simp add: zeroFilled_def totalFrames_def)
  have zv: "framesWithAllRegionsValid (zeroFilled m) = framesWithAllRegionsValid m"
    by (simp add: zeroFilled_def framesWithAllRegionsValid_def)
  have zd: "durationSeconds (zeroFilled m) = durationSeconds m"
    by (simp add: zeroFilled_def durationSeconds_def)
  have "sumSamples (zeroFilled m)
        = sum_list (map ((\<lambda>(k, v). case v of None \<Rightarrow> 0 | Some c \<Rightarrow> c)
            \<circ> (\<lambda>(k, v). (k, Some (case v of None \<Rightarrow> 0 | Some c \<Rightarrow> c)))) (samplesPerRegion m))"
    by (simp add: sumSamples_def samplesPerRegion_def zeroFilled_def)
  also have "((\<lambda>(k, v). case v of None \<Rightarrow> (0::int) | Some c \<Rightarrow> c)
            \<circ> (\<lambda>(k :: string, v). (k, Some (case v of None \<Rightarrow> 0 | Some c \<Rightarrow> c))))
        = (\<lambda>(k, v). case v of None \<Rightarrow> 0 | Some c \<Rightarrow> c)"
    by (auto simp: fun_eq_iff)
  finally have zs: "sumSamples (zeroFilled m) = sumSamples m"
    by (simp add: sumSamples_def)
  have r: "getRoiStage m = getRoiStage (zeroFilled m)"
  proof -
    have "status (getRoiStage m) = status (getRoiStage (zeroFilled m))"
      by (simp only: roi_status zt zv)
    then show ?thesis by (simp add: getRoiStage_def Let_def)
  qed
  have p: "getRppgStage m = getRppgStage (zeroFilled m)"
  proof -
    have "status (getRppgStage m) = status (getRppgStage (zeroFilled m))"
      by (simp only: rppg_status zd zs)
    then show ?thesis by (simp add: getRppgStage_def Let_def)
  qed
  have ids: "map stage_id (PipelineDiagram m) = [''ingest'', ''face'', ''roi'', ''rppg'']"
    by (simp add: PipelineDiagram_def getIngestStage_def getFaceStage_def getRoiStage_def
        getRppgStage_def Let_def)
  have "PipelineDiagram m = PipelineDiagram (zeroFilled m)"
    unfolding PipelineDiagram_def using i f r p by simp
  with ids show ?thesis by blast
qed

theorem pipeline_reads_missing_as_zero_witness:
  "map status (PipelineDiagram emptyMetrics) = [Fail, Fail, Fail, Warning] \<and>
   map stage_id (PipelineDiagram emptyMetrics) = [''ingest'', ''face'', ''roi'', ''rppg'']"
proof -
  have z: "zeroFilled emptyMetrics =
      \<lparr>ingest = Some \<lparr>num_windows = Some 0\<rparr>, face = Some \<lparr>windows = Some []\<rparr>,
       roi = Some \<lparr>total_frames = Some 0, frames_with_all_regions_valid = Some 0,
                   frames_per_region = Some []\<rparr>,
       rppg = Some \<lparr>samples_per_region = Some [], duration_seconds = Some 0\<rparr>\<rparr>"
    by (simp add: zeroFilled_def emptyMetrics_def totalFrames_def framesWithAllRegionsValid_def
        samplesPerRegion_def durationSeconds_def)
  have "map status (PipelineDiagram (zeroFilled emptyMetrics)) = [Fail, Fail, Fail, Warning]"
    unfolding z
    by (simp add: PipelineDiagram_def getIngestStage_def getFaceStage_def getRoiStage_def
        getRppgStage_def Let_def chain_def nullish_def totalSamples_def)
  moreover note pipeline_reads_missing_as_zero [of emptyMetrics]
  ultimately show ?thesis by metis
qed

section \<open>Liveness panel: results\<close>

lemma getFeatureBars_empty:
  "(getFeatureBars ms = []) = featuresAbsentOrEmpty ms"
  by (simp add: getFeatureBars_def featuresAbsentOrEmpty_def chain_def split: option.splits)

lemma liveness_chain_absent:
  "(chain (ms_features ms) liveness = None) = livenessAbsent ms"
  by (simp add: chain_def livenessAbsent_def split: option.splits)

lemma LivenessPanel_None:
  "(LivenessPanel ms = None) = (featuresAbsentOrEmpty ms \<and> livenessAbsent ms)"
  by (simp add: LivenessPanel_def Let_def getFeatureBars_empty liveness_chain_absent)

lemma gateMessage_rendered:
  assumes "\<not> (featuresAbsentOrEmpty ms \<and> livenessAbsent ms)"
  shows "gateMessage ms =
     (case chain (scoring ms) liveness_score of
        None \<Rightarrow> None
      | Some ls \<Rightarrow>
          (case chain (scoring ms) gate_factor of
             None \<Rightarrow> None
           | Some g \<Rightarrow>
               if g < 1 then
                 Some \<lparr>gate_shown = g,
                       base_and_gated =
                         (case chain (scoring ms) base_score of
                            None \<Rightarrow> None | Some b \<Rightarrow> Some (b, ls))\<rparr>
               else None))"
proof -
  from assms have "\<not> (getFeatureBars ms = [] \<and> chain (ms_features ms) liveness = None)"
    by (simp add: getFeatureBars_empty liveness_chain_absent)
  then show ?thesis
    by (auto simp add: gateMessage_def LivenessPanel_def Let_def split: option.splits)
qed

text \<open>
  Claim C5. For every feature value \<open>v\<close> (in particular every \<open>v\<close> in [0, 1]) the label
  is Strong from 0.7 up, Moderate from 0.4 up to but excluding 0.7, Weak strictly between
  0 and 0.4, and None at 0; the colour of the bar and the colour of the badge are the
  emerald one exactly for Strong, the amber one exactly for Moderate and the red one
  exactly for Weak and None.
\<close>

theorem feature_label_and_color:
  "(v \<ge> 0.7 \<longrightarrow> valueLabel v = ''Strong'') \<and>
   (0.4 \<le> v \<and> v < 0.7 \<longrightarrow> valueLabel v = ''Moderate'') \<and>
   (0 < v \<and> v < 0.4 \<longrightarrow> valueLabel v = ''Weak'') \<and>
   (v = 0 \<longrightarrow> valueLabel v = ''None'') \<and>
   (barColor v = ''bg-emerald-500 shadow-[0_0_12px_rgba(16,185,129,0.5)]''
      \<longleftrightarrow> valueLabel v = ''Strong'') \<and>
   (barColor v = ''bg-amber-500 shadow-[0_0_12px_rgba(245,158,11,0.5)]''
      \<longleftrightarrow> valueLabel v = ''Moderate'') \<and>
   (barColor v = ''bg-red-500 shadow-[0_0_12px_rgba(239,68,68,0.5)]''
      \<longleftrightarrow> valueLabel v = ''Weak'' \<or> valueLabel v = ''None'') \<and>
   (badgeClass v = ''text-emerald-400 bg-emerald-500/10'' \<longleftrightarrow> valueLabel v = ''Strong'') \<and>
   (badgeClass v = ''text-amber-400 bg-amber-500/10'' \<longleftrightarrow> valueLabel v = ''Moderate'') \<and>
   (badgeClass v = ''text-red-400 bg-red-500/10''
      \<longleftrightarrow> valueLabel v = ''Weak'' \<or> valueLabel v = ''None'')"
  by (simp add: valueLabel_def barColor_def badgeClass_def)

theorem feature_label_and_color_witness:
  "valueLabel 0.75 = ''Strong'' \<and> valueLabel 0.7 = ''Strong'' \<and>
   valueLabel 0.5 = ''Moderate'' \<and> valueLabel 0.4 = ''Moderate'' \<and>
   valueLabel 0.1 = ''Weak'' \<and> valueLabel 0 = ''None'' \<and>
   barColor 0.7 = ''bg-emerald-500 shadow-[0_0_12px_rgba(16,185,129,0.5)]'' \<and>
   barColor 0.4 = ''bg-amber-500 shadow-[0_0_12px_rgba(245,158,11,0.5)]'' \<and>
   barColor 0.1 = ''bg-red-500 shadow-[0_0_12px_rgba(239,68,68,0.5)]'' \<and>
   barColor 0 = ''bg-red-500 shadow-[0_0_12px_rgba(239,68,68,0.5)]''"
proof -
  have a: "valueLabel 0.75 = ''Strong''"
    using feature_label_and_color [of "0.75"] by simp
  have b: "valueLabel 0.7 = ''Strong''"
    using feature_label_and_color [of "0.7"] by simp
  have c: "valueLabel 0.5 = ''Moderate''"
    using feature_label_and_color [of "0.5"] by simp
  have d: "valueLabel 0.4 = ''Moderate''"
    using feature_label_and_color [of "0.4"] by simp
  have e: "valueLabel 0.1 = ''Weak''"
    using feature_label_and_color [of "0.1"] by simp
  have f: "valueLabel 0 = ''None''"
    using feature_label_and_color [of 0] by simp
  have g: "barColor 0.7 = ''bg-emerald-500 shadow-[0_0_12px_rgba(16,185,129,0.5)]''"
    using feature_label_and_color [of "0.7"] b by blast
  have h: "barColor 0.4 = ''bg-amber-500 shadow-[0_0_12px_rgba(245,158,11,0.5)]''"
    using feature_label_and_color [of "0.4"] d by blast
  have i: "barColor 0.1 = ''bg-red-500 shadow-[0_0_12px_rgba(239,68,68,0.5)]''"
    using feature_label_and_color [of "0.1"] e by blast
  have j: "barColor 0 = ''bg-red-500 shadow-[0_0_12px_rgba(239,68,68,0.5)]''"
    using feature_label_and_color [of 0] f by blast
  from a b c d e f g h i j show ?thesis by blast
qed

text \<open>
  Claim C6, as stated: for every scoring breakdown with a gate factor below 1.0 the
  output flags the gate penalty and reports the base score and the gated liveness score.
  It fails on three inputs with gate factor 0.6: with no features and no liveness block
  nothing is rendered; with features but no liveness score the score block, and the gate
  message in it, is not rendered; with no base score the message shows the factor only.
\<close>

theorem gate_message_counterexample:
  "gateMessage \<lparr>sqi = None, ms_features = None,
       scoring = Some \<lparr>liveness_score = Some 0.48, base_score = Some 0.8,
         gate_factor = Some 0.6, tau_auth = None, features = None\<rparr>\<rparr> = None \<and>
   gateMessage \<lparr>sqi = None, ms_features = None,
       scoring = Some \<lparr>liveness_score = None, base_score = Some 0.8,
         gate_factor = Some 0.6, tau_auth = None,
         features = Some [(''periodicity'', \<lparr>detail_value = 0.9, detail_weight = 0.1\<rparr>)]\<rparr>\<rparr>
     = None \<and>
   gateMessage \<lparr>sqi = None, ms_features = None,
       scoring = Some \<lparr>liveness_score = Some 0.48, base_score = None,
         gate_factor = Some 0.6, tau_auth = None,
         features = Some [(''periodicity'', \<lparr>detail_value = 0.9, detail_weight = 0.1\<rparr>)]\<rparr>\<rparr>
     = Some \<lparr>gate_shown = 0.6, base_and_gated = None\<rparr>"
  by (simp add: gateMessage_def LivenessPanel_def getFeatureBars_def chain_def Let_def)

text \<open>
  Claim C6, amended. When the panel is rendered (the scoring features map is not empty,
  or a liveness block is present) and the scoring breakdown has a liveness score and a
  gate factor below 1.0, the output carries the gate message with the factor; the message
  holds the base score together with the gated liveness score when a base score is
  present, and the factor alone when it is absent. When the gate factor is absent, no
  gate message is produced.
\<close>

theorem gate_message_when_rendered:
  "(\<not> (featuresAbsentOrEmpty ms \<and> livenessAbsent ms) \<and> scoring ms = Some sc \<and>
    liveness_score sc = Some ls \<and> gate_factor sc = Some g \<and> g < 1 \<longrightarrow>
      gateMessage ms =
        Some \<lparr>gate_shown = g,
              base_and_gated = (case base_score sc of None \<Rightarrow> None | Some b \<Rightarrow> Some (b, ls))\<rparr>) \<and>
   (chain (scoring ms) gate_factor = None \<longrightarrow> gateMessage ms = None)"
proof (intro conjI impI)
  assume a: "\<not> (featuresAbsentOrEmpty ms \<and> livenessAbsent ms) \<and> scoring ms = Some sc \<and>
    liveness_score sc = Some ls \<and> gate_factor sc = Some g \<and> g < 1"
  then show "gateMessage ms =
      Some \<lparr>gate_shown = g,
            base_and_gated = (case base_score sc of None \<Rightarrow> None | Some b \<Rightarrow> Some (b, ls))\<rparr>"
    by (simp add: gateMessage_rendered chain_def)
next
  assume n: "chain (scoring ms) gate_factor = None"
  show "gateMessage ms = None"
  proof (cases "featuresAbsentOrEmpty ms \<and> livenessAbsent ms")
    case True
    then have "LivenessPanel ms = None" by (simp add: LivenessPanel_None)
    then show ?thesis by (simp add: gateMessage_def)
  next
    case False
    then show ?thesis using n by (simp add: gateMessage_rendered split: option.splits)
  qed
qed

theorem gate_message_when_rendered_witness:
  "gateMessage \<lparr>sqi = None, ms_features = None,
       scoring = Some \<lparr>liveness_score = Some 0.48, base_score = Some 0.8,
         gate_factor = Some 0.6, tau_auth = None,
         features = Some [(''periodicity'', \<lparr>detail_value = 0.9, detail_weight = 0.1\<rparr>)]\<rparr>\<rparr>
     = Some \<lparr>gate_shown = 0.6, base_and_gated = Some (0.8, 0.48)\<rparr> \<and>
   gateMessage \<lparr>sqi = None, ms_features = None,
       scoring = Some \<lparr>liveness_score = Some 0.48, base_score = None,
         gate_factor = Some 0.6, tau_auth = None,
         features = Some [(''periodicity'', \<lparr>detail_value = 0.9, detail_weight = 0.1\<rparr>)]\<rparr>\<rparr>
     = Some \<lparr>gate_shown = 0.6, base_and_gated = None\<rparr> \<and>
   gateMessage \<lparr>sqi = None, ms_features = None,
       scoring = Some \<lparr>liveness_score = Some 0.48, base_score = Some 0.8,
         gate_factor = None, tau_auth = None,
         features = Some [(''periodicity'', \<lparr>detail_value = 0.9, detail_weight = 0.1\<rparr>)]\<rparr>\<rparr>
     = None"
proof -
  let ?sc = "\<lparr>liveness_score = Some 0.48, base_score = Some 0.8,
         gate_factor = Some (0.6 :: real), tau_auth = None,
         features = Some [(''periodicity'', \<lparr>detail_value = 0.9, detail_weight = 0.1\<rparr>)]\<rparr>"
  let ?sb = "\<lparr>liveness_score = Some 0.48, base_score = None,
         gate_factor = Some (0.6 :: real), tau_auth = None,
         features = Some [(''periodicity'', \<lparr>detail_value = 0.9, detail_weight = 0.1\<rparr>)]\<rparr>"
  let ?sn = "\<lparr>liveness_score = Some 0.48, base_score = Some 0.8,
         gate_factor = None, tau_auth = None,
         features = Some [(''periodicity'', \<lparr>detail_value = 0.9, detail_weight = 0.1\<rparr>)]\<rparr>"
  let ?ms = "\<lparr>sqi = None, ms_features = None, scoring = Some ?sc\<rparr>"
  let ?mb = "\<lparr>sqi = None, ms_features = None, scoring = Some ?sb\<rparr>"
  let ?mn = "\<lparr>sqi = None, ms_features = None, scoring = Some ?sn\<rparr>"
  have h: "\<not> (featuresAbsentOrEmpty ?ms \<and> livenessAbsent ?ms) \<and> scoring ?ms = Some ?sc \<and>
    liveness_score ?sc = Some 0.48 \<and> gate_factor ?sc = Some 0.6 \<and> (0.6 :: real) < 1"
    by (simp add: featuresAbsentOrEmpty_def)
  have hb: "\<not> (featuresAbsentOrEmpty ?mb \<and> livenessAbsent ?mb) \<and> scoring ?mb = Some ?sb \<and>
    liveness_score ?sb = Some 0.48 \<and> gate_factor ?sb = Some 0.6 \<and> (0.6 :: real) < 1"
    by (simp add: featuresAbsentOrEmpty_def)
  from h gate_message_when_rendered [of ?ms ?sc "0.48" "0.6"]
  have "gateMessage ?ms = Some \<lparr>gate_shown = 0.6,
      base_and_gated = (case base_score ?sc of None \<Rightarrow> None | Some b \<Rightarrow> Some (b, 0.48))\<rparr>"
    by blast
  then have 1: "gateMessage ?ms = Some \<lparr>gate_shown = 0.6, base_and_gated = Some (0.8, 0.48)\<rparr>"
    by simp
  from hb gate_message_when_rendered [of ?mb ?sb "0.48" "0.6"]
  have "gateMessage ?mb = Some \<lparr>gate_shown = 0.6,
      base_and_gated = (case base_score ?sb of None \<Rightarrow> None | Some b \<Rightarrow> Some (b, 0.48))\<rparr>"
    by blast
  then have 2: "gateMessage ?mb = Some \<lparr>gate_shown = 0.6, base_and_gated = None\<rparr>"
    by simp
  have n: "chain (scoring ?mn) gate_factor = None" by (simp add: chain_def)
  from n gate_message_when_rendered [of ?mn ?sc "0.48" "0.6"]
  have 3: "gateMessage ?mn = None" by blast
  from 1 2 3 show ?thesis by blast
qed

text \<open>
  Claim C10. When the scoring features map is absent or empty and the liveness block is
  absent, the panel renders nothing, whatever else the input holds: no score, no
  threshold position and no gate message.
\<close>

theorem liveness_panel_renders_nothing:
  "featuresAbsentOrEmpty ms \<Longrightarrow> livenessAbsent ms \<Longrightarrow>
     LivenessPanel ms = None \<and> gateMessage ms = None"
proof -
  assume "featuresAbsentOrEmpty ms" and "livenessAbsent ms"
  then have "LivenessPanel ms = None" by (simp add: LivenessPanel_None)
  then show ?thesis by (simp add: gateMessage_def)
qed

theorem liveness_panel_renders_nothing_witness:
  "LivenessPanel \<lparr>sqi = None, ms_features = Some \<lparr>liveness = None\<rparr>,
       scoring = Some \<lparr>liveness_score = Some 0.48, base_score = Some 0.8,
         gate_factor = Some 0.6, tau_auth = Some 0.45, features = Some []\<rparr>\<rparr> = None"
proof -
  let ?ms = "\<lparr>sqi = None, ms_features = Some \<lparr>liveness = None\<rparr>,
       scoring = Some \<lparr>liveness_score = Some 0.48, base_score = Some 0.8,
         gate_factor = Some 0.6, tau_auth = Some 0.45, features = Some []\<rparr>\<rparr>"
  have a: "featuresAbsentOrEmpty ?ms" by (simp add: featuresAbsentOrEmpty_def)
  have b: "livenessAbsent ?ms" by (simp add: livenessAbsent_def)
  from liveness_panel_renders_nothing [OF a b] show ?thesis by simp
qed

section \<open>Evidence viewer: results\<close>

lemma renderEntries_paths:
  "map entry_path (renderEntries urls errs idx ps)
     = filter (\<lambda>p. urlFor urls p \<noteq> None \<and> p \<notin> errs) ps"
  by (induction ps arbitrary: idx) (auto split: option.splits)

lemma renderEntries_src:
  "e \<in> set (renderEntries urls errs idx ps) \<Longrightarrow> urlFor urls (entry_path e) = Some (entry_src e)"
  by (induction ps arbitrary: idx) (auto split: option.splits if_splits)

lemma urlFor_Some:
  "urlFor urls p = Some u \<Longrightarrow> urls p = Some u \<and> u \<noteq> []"
  by (auto simp: urlFor_def split: option.splits if_splits)

lemma roi_resolved:
  "map entry_path (resolved (roiMasksSection ev errs))
     = filter (resolvable ev errs) (pathsOf (roi_masks (artifacts ev)))"
proof (cases "roi_masks (artifacts ev)")
  case None
  then show ?thesis by (simp add: roiMasksSection_def pathsOf_def)
next
  case (Some masks)
  have r: "resolvable ev errs = (\<lambda>p. urlFor (signed_urls ev) p \<noteq> None \<and> p \<notin> errs)"
    by (simp add: resolvable_def fun_eq_iff)
  show ?thesis
  proof (cases "filter (resolvable ev errs) masks = []")
    case True
    with Some show ?thesis
      by (simp add: roiMasksSection_def pathsOf_def Let_def r)
  next
    case False
    then have "masks \<noteq> []" by auto
    with Some False show ?thesis
      by (simp add: roiMasksSection_def pathsOf_def Let_def r renderEntries_paths)
  qed
qed

lemma traces_resolved:
  "map entry_path (resolved (rppgTracesSection ev errs))
     = filter (resolvable ev errs) (pathsOf (rppg_traces (artifacts ev)))"
proof -
  have r: "resolvable ev errs = (\<lambda>p. urlFor (signed_urls ev) p \<noteq> None \<and> p \<notin> errs)"
    by (simp add: resolvable_def fun_eq_iff)
  show ?thesis
    by (cases "rppg_traces (artifacts ev)")
       (simp_all add: rppgTracesSection_def pathsOf_def r renderEntries_paths)
qed

lemma spectra_resolved:
  "map entry_path (resolved (rppgSpectraSection ev errs))
     = filter (resolvable ev errs) (pathsOf (rppg_spectra (artifacts ev)))"
proof -
  have r: "resolvable ev errs = (\<lambda>p. urlFor (signed_urls ev) p \<noteq> None \<and> p \<notin> errs)"
    by (simp add: resolvable_def fun_eq_iff)
  show ?thesis
    by (cases "rppg_spectra (artifacts ev)")
       (simp_all add: rppgSpectraSection_def pathsOf_def r renderEntries_paths)
qed

lemma section_entries_src:
  assumes "e \<in> set (resolved (roiMasksSection ev errs))
         \<union> set (resolved (rppgTracesSection ev errs))
         \<union> set (resolved (rppgSpectraSection ev errs))"
  shows "signed_urls ev (entry_path e) = Some (entry_src e) \<and> entry_src e \<noteq> []"
proof -
  from assms have "\<exists>ps. e \<in> set (renderEntries (signed_urls ev) errs 0 ps)"
    by (auto simp: roiMasksSection_def rppgTracesSection_def rppgSpectraSection_def Let_def
        split: option.splits if_splits)
  then have "urlFor (signed_urls ev) (entry_path e) = Some (entry_src e)"
    by (auto dest: renderEntries_src)
  then show ?thesis by (rule urlFor_Some)
qed

lemma roi_unavailable:
  assumes "pathsOf (roi_masks (artifacts ev)) \<noteq> []"
    and "filter (resolvable ev errs) (pathsOf (roi_masks (artifacts ev))) = []"
  shows "roiMasksSection ev errs = Unavailable"
proof -
  have r: "resolvable ev errs = (\<lambda>p. urlFor (signed_urls ev) p \<noteq> None \<and> p \<notin> errs)"
    by (simp add: resolvable_def fun_eq_iff)
  from assms(1) obtain masks where m: "roi_masks (artifacts ev) = Some masks" "masks \<noteq> []"
    by (auto simp: pathsOf_def split: option.splits)
  from assms(2) m have "filter (\<lambda>p. urlFor (signed_urls ev) p \<noteq> None \<and> p \<notin> errs) masks = []"
    by (simp add: pathsOf_def r)
  with m show ?thesis by (simp add: roiMasksSection_def Let_def)
qed

text \<open>
  Claim C7, as stated: every category present in the index lists exactly its paths that
  have an entry in the URL map, paths without a URL being dropped, and a category that
  is present but has nothing resolvable is in an "unavailable" state that an absent
  category is not in. It fails in the code: a \<open>roi_masks\<close> category that is present with an
  empty list renders no section, as an absent one does; a path whose entry in the URL
  map is the empty string is dropped although it has an entry; and the \<open>summary\<close> path
  without a URL is shown as its bare path.
\<close>

theorem evidence_resolver_counterexample:
  "roiMasksSection \<lparr>artifacts = \<lparr>summary = None, rppg_traces = None, rppg_spectra = None,
         roi_masks = Some [], other_keys = []\<rparr>, signed_urls = Map.empty\<rparr> {} = Hidden \<and>
   roiMasksSection \<lparr>artifacts = \<lparr>summary = None, rppg_traces = None, rppg_spectra = None,
         roi_masks = None, other_keys = []\<rparr>, signed_urls = Map.empty\<rparr> {} = Hidden \<and>
   resolved (rppgTracesSection \<lparr>artifacts = \<lparr>summary = None, rppg_traces = Some [''a.png''],
         rppg_spectra = None, roi_masks = None, other_keys = []\<rparr>,
         signed_urls = [''a.png'' \<mapsto> []]\<rparr> {}) = [] \<and>
   summarySection \<lparr>artifacts = \<lparr>summary = Some ''summary.json'', rppg_traces = None,
         rppg_spectra = None, roi_masks = None, other_keys = []\<rparr>,
         signed_urls = Map.empty\<rparr> = PathOnly ''summary.json''"
  by (simp add: roiMasksSection_def rppgTracesSection_def summarySection_def urlFor_def)

text \<open>
  Claim C7, amended. For each of the list categories \<open>roi_masks\<close>, \<open>rppg_traces\<close> and
  \<open>rppg_spectra\<close>, the images rendered are exactly the category's paths that have a
  non-empty URL in the URL map and no recorded load error, in index order, each with its
  URL as source; the other paths are dropped. A \<open>roi_masks\<close> category with at least one
  path and none resolvable is rendered as the "unavailable" notice, while an absent
  \<open>roi_masks\<close> category renders no section.
\<close>

theorem evidence_sections_resolved:
  "map entry_path (resolved (roiMasksSection ev errs))
     = filter (resolvable ev errs) (pathsOf (roi_masks (artifacts ev))) \<and>
   map entry_path (resolved (rppgTracesSection ev errs))
     = filter (resolvable ev errs) (pathsOf (rppg_traces (artifacts ev))) \<and>
   map entry_path (resolved (rppgSpectraSection ev errs))
     = filter (resolvable ev errs) (pathsOf (rppg_spectra (artifacts ev))) \<and>
   (\<forall>e \<in> set (resolved (roiMasksSection ev errs))
         \<union> set (resolved (rppgTracesSection ev errs))
         \<union> set (resolved (rppgSpectraSection ev errs)).
      signed_urls ev (entry_path e) = Some (entry_src e) \<and> entry_src e \<noteq> []) \<and>
   (pathsOf (roi_masks (artifacts ev)) \<noteq> [] \<and>
    filter (resolvable ev errs) (pathsOf (roi_masks (artifacts ev))) = []
      \<longrightarrow> roiMasksSection ev errs = Unavailable) \<and>
   (roi_masks (artifacts ev) = None \<longrightarrow> roiMasksSection ev errs = Hidden)"
proof -
  have h: "roi_masks (artifacts ev) = None \<longrightarrow> roiMasksSection ev errs = Hidden"
    by (simp add: roiMasksSection_def)
  have u: "pathsOf (roi_masks (artifacts ev)) \<noteq> [] \<and>
      filter (resolvable ev errs) (pathsOf (roi_masks (artifacts ev))) = []
      \<longrightarrow> roiMasksSection ev errs = Unavailable"
    using roi_unavailable by blast
  have s: "\<forall>e \<in> set (resolved (roiMasksSection ev errs))
         \<union> set (resolved (rppgTracesSection ev errs))
         \<union> set (resolved (rppgSpectraSection ev errs)).
      signed_urls ev (entry_path e) = Some (entry_src e) \<and> entry_src e \<noteq> []"
    using section_entries_src by blast
  from roi_resolved traces_resolved spectra_resolved s u h show ?thesis by blast
qed

theorem evidence_sections_resolved_witness:
  "resolved (rppgTracesSection \<lparr>artifacts = \<lparr>summary = None,
         rppg_traces = Some [''a.png'', ''b.png''], rppg_spectra = None,
         roi_masks = Some [''m.png''], other_keys = []\<rparr>,
         signed_urls = [''a.png'' \<mapsto> ''https://x/a'']\<rparr> {})
     = [\<lparr>entry_path = ''a.png'', entry_src = ''https://x/a'', entry_no = 1\<rparr>] \<and>
   roiMasksSection \<lparr>artifacts = \<lparr>summary = None,
         rppg_traces = Some [''a.png'', ''b.png''], rppg_spectra = None,
         roi_masks = Some [''m.png''], other_keys = []\<rparr>,
         signed_urls = [''a.png'' \<mapsto> ''https://x/a'']\<rparr> {} = Unavailable"
proof -
  let ?ev = "\<lparr>artifacts = \<lparr>summary = None,
         rppg_traces = Some [''a.png'', ''b.png''], rppg_spectra = None,
         roi_masks = Some [''m.png''], other_keys = []\<rparr>,
         signed_urls = [''a.png'' \<mapsto> ''https://x/a'']\<rparr>"
  note t = evidence_sections_resolved [of ?ev "{}"]
  have p: "pathsOf (roi_masks (artifacts ?ev)) \<noteq> [] \<and>
      filter (resolvable ?ev {}) (pathsOf (roi_masks (artifacts ?ev))) = []"
    by (simp add: pathsOf_def resolvable_def urlFor_def)
  from t p have 1: "roiMasksSection ?ev {} = Unavailable" by blast
  have "resolved (rppgTracesSection ?ev {})
      = [\<lparr>entry_path = ''a.png'', entry_src = ''https://x/a'', entry_no = 1\<rparr>]"
    by (simp add: rppgTracesSection_def urlFor_def)
  with 1 show ?thesis by simp
qed

section \<open>Polling hooks: results\<close>

subsection \<open>usePolling\<close>

lemma usePolling_run_Cons:
  "usePolling_run c s (e # es) = usePolling_run c (usePolling_step c s e) es"
  by (simp add: usePolling_run_def)

lemma usePolling_run_Nil: "usePolling_run c s [] = s"
  by (simp add: usePolling_run_def)

lemma usePolling_run_snoc:
  "usePolling_run c s (es @ [e]) = usePolling_step c (usePolling_run c s es) e"
  by (simp add: usePolling_run_def)

lemma usePolling_stopped_step:
  "shouldStopRef s \<Longrightarrow>
     shouldStopRef (usePolling_step c s e) \<and> issued (usePolling_step c s e) = issued s"
  by (cases e) (simp_all add: Let_def clearIntervalRef_def split: option.splits)

lemma usePolling_stopped_run:
  "shouldStopRef s \<Longrightarrow> issued (usePolling_run c s es) = issued s"
proof (induction es arbitrary: s)
  case Nil
  show ?case by (simp add: usePolling_run_Nil)
next
  case (Cons e es)
  from Cons.prems have "shouldStopRef (usePolling_step c s e)"
    and "issued (usePolling_step c s e) = issued s"
    by (simp_all add: usePolling_stopped_step)
  with Cons.IH [of "usePolling_step c s e"] show ?case
    by (simp add: usePolling_run_Cons)
qed

lemma usePolling_quiet_step:
  "shouldStopRef s \<Longrightarrow> pending s = 0 \<Longrightarrow>
     shouldStopRef (usePolling_step c s e) \<and> pending (usePolling_step c s e) = 0 \<and>
     error (usePolling_step c s e) = error s \<and> data (usePolling_step c s e) = data s"
  by (cases e) (simp_all add: Let_def clearIntervalRef_def split: option.splits)

lemma usePolling_quiet_run:
  "shouldStopRef s \<Longrightarrow> pending s = 0 \<Longrightarrow> error (usePolling_run c s es) = error s"
proof (induction es arbitrary: s)
  case Nil
  show ?case by (simp add: usePolling_run_Nil)
next
  case (Cons e es)
  from Cons.prems usePolling_quiet_step [of s c e]
  have "shouldStopRef (usePolling_step c s e)" "pending (usePolling_step c s e) = 0"
    "error (usePolling_step c s e) = error s"
    by simp_all
  with Cons.IH [of "usePolling_step c s e"] show ?case
    by (simp add: usePolling_run_Cons)
qed

lemma usePolling_reject:
  assumes "isMounted s" and "pending s > 0"
  shows "error (usePolling_step c s (Reject e))
           = Some (case e of Some message \<Rightarrow> message | None \<Rightarrow> ''Polling error'')"
    and "shouldStopRef (usePolling_step c s (Reject e))"
    and "issued (usePolling_step c s (Reject e)) = issued s"
    and "pending (usePolling_step c s (Reject e)) = pending s - 1"
  using assms by (simp_all add: Let_def clearIntervalRef_def split: option.splits)

lemma usePolling_ticks_only:
  "pending (usePolling_run c usePolling_mount (replicate n Tick)) = n + 1 \<and>
   issued (usePolling_run c usePolling_mount (replicate n Tick)) = rev [0..<n + 1] \<and>
   ticks (usePolling_run c usePolling_mount (replicate n Tick)) = n \<and>
   timerArmed (usePolling_run c usePolling_mount (replicate n Tick)) \<and>
   \<not> shouldStopRef (usePolling_run c usePolling_mount (replicate n Tick))"
proof (induction n)
  case 0
  show ?case
    by (simp add: usePolling_run_Nil usePolling_mount_def issueProbe_def Let_def)
next
  case (Suc n)
  have "replicate (Suc n) Tick = replicate n Tick @ [Tick :: 'a event]"
    by (simp add: replicate_append_same)
  then have "usePolling_run c usePolling_mount (replicate (Suc n) Tick)
      = usePolling_step c (usePolling_run c usePolling_mount (replicate n Tick)) Tick"
    by (simp only: usePolling_run_snoc)
  with Suc.IH show ?case
    by (simp add: Let_def issueProbe_def)
qed

lemma usePolling_single_flight_step:
  "pending s \<le> 1 \<Longrightarrow> e \<noteq> Tick \<or> pending s = 0 \<Longrightarrow> pending (usePolling_step c s e) \<le> 1"
  by (cases e) (auto simp add: Let_def clearIntervalRef_def issueProbe_def split: option.splits)

lemma usePolling_single_flight_run:
  "pending s \<le> 1 \<Longrightarrow> ticksFindNoProbe c s es \<Longrightarrow> pending (usePolling_run c s (take k es)) \<le> 1"
proof (induction es arbitrary: s k)
  case Nil
  then show ?case by (simp add: usePolling_run_Nil)
next
  case (Cons e es)
  show ?case
  proof (cases k)
    case 0
    with Cons.prems show ?thesis by (simp add: usePolling_run_Nil)
  next
    case (Suc j)
    from Cons.prems have a: "e \<noteq> Tick \<or> pending s = 0"
      and b: "ticksFindNoProbe c (usePolling_step c s e) es"
      by simp_all
    from Cons.prems(1) a have "pending (usePolling_step c s e) \<le> 1"
      by (rule usePolling_single_flight_step)
    from Cons.IH [OF this b, of j] Suc show ?thesis
      by (simp add: usePolling_run_Cons)
  qed
qed

subsection \<open>useAnalysis\<close>

lemma useAnalysis_run_Cons:
  "useAnalysis_run cap s (e # es) = useAnalysis_run cap (useAnalysis_step cap s e) es"
  by (simp add: useAnalysis_run_def)

lemma useAnalysis_run_Nil: "useAnalysis_run cap s [] = s"
  by (simp add: useAnalysis_run_def)

lemma useAnalysis_run_snoc:
  "useAnalysis_run cap s (es @ [e]) = useAnalysis_step cap (useAnalysis_run cap s es) e"
  by (simp add: useAnalysis_run_def)

lemma useAnalysis_step_intervalId:
  "intervalId (useAnalysis_step cap s e) = intervalId s"
  by (cases e) (simp_all add: Let_def clearIntervalId_def issueProbe_def split: option.splits)

lemma useAnalysis_run_intervalId:
  "intervalId (useAnalysis_run cap useAnalysis_mount es) = Some 1"
proof (induction es rule: rev_induct)
  case Nil
  show ?case by (simp add: useAnalysis_run_Nil useAnalysis_mount_def Let_def issueProbe_def)
next
  case (snoc e es)
  then show ?case by (simp add: useAnalysis_run_snoc useAnalysis_step_intervalId)
qed

lemma useAnalysis_first_mount_step:
  "issued (useAnalysis_step None s e) = issued s"
  by (cases e) (simp_all add: Let_def clearIntervalId_def split: option.splits)

lemma useAnalysis_first_mount_single_probe:
  "issued (useAnalysis_run None useAnalysis_mount es) = [0]"
proof (induction es rule: rev_induct)
  case Nil
  show ?case by (simp add: useAnalysis_run_Nil useAnalysis_mount_def Let_def issueProbe_def)
next
  case (snoc e es)
  then show ?case by (simp add: useAnalysis_run_snoc useAnalysis_first_mount_step)
qed

lemma useAnalysis_cleared_step:
  "\<not> timerArmed s \<Longrightarrow>
     \<not> timerArmed (useAnalysis_step cap s e) \<and> issued (useAnalysis_step cap s e) = issued s"
  by (cases e) (simp_all add: Let_def clearIntervalId_def split: option.splits)

lemma useAnalysis_cleared_run:
  "\<not> timerArmed s \<Longrightarrow> issued (useAnalysis_run cap s es) = issued s"
proof (induction es arbitrary: s)
  case Nil
  show ?case by (simp add: useAnalysis_run_Nil)
next
  case (Cons e es)
  from Cons.prems have "\<not> timerArmed (useAnalysis_step cap s e)"
    and "issued (useAnalysis_step cap s e) = issued s"
    by (simp_all add: useAnalysis_cleared_step)
  with Cons.IH [of "useAnalysis_step cap s e"] show ?case
    by (simp add: useAnalysis_run_Cons)
qed

lemma useAnalysis_quiet_step:
  "\<not> timerArmed s \<Longrightarrow> pending s = 0 \<Longrightarrow>
     \<not> timerArmed (useAnalysis_step cap s e) \<and> pending (useAnalysis_step cap s e) = 0 \<and>
     error (useAnalysis_step cap s e) = error s"
  by (cases e) (simp_all add: Let_def clearIntervalId_def split: option.splits)

lemma useAnalysis_quiet_run:
  "\<not> timerArmed s \<Longrightarrow> pending s = 0 \<Longrightarrow> error (useAnalysis_run cap s es) = error s"
proof (induction es arbitrary: s)
  case Nil
  show ?case by (simp add: useAnalysis_run_Nil)
next
  case (Cons e es)
  from Cons.prems useAnalysis_quiet_step [of s cap e]
  have "\<not> timerArmed (useAnalysis_step cap s e)" "pending (useAnalysis_step cap s e) = 0"
    "error (useAnalysis_step cap s e) = error s"
    by simp_all
  with Cons.IH [of "useAnalysis_step cap s e"] show ?case
    by (simp add: useAnalysis_run_Cons)
qed

lemma useAnalysis_reject:
  assumes "isMounted s" and "pending s > 0" and "intervalId s = Some h"
  shows "error (useAnalysis_step cap s (Reject e))
           = Some (case e of Some message \<Rightarrow> message | None \<Rightarrow> ''Failed to fetch analysis'')"
    and "\<not> timerArmed (useAnalysis_step cap s (Reject e))"
    and "issued (useAnalysis_step cap s (Reject e)) = issued s"
    and "pending (useAnalysis_step cap s (Reject e)) = pending s - 1"
  using assms by (simp_all add: Let_def clearIntervalId_def)

lemma useAnalysis_terminal_result:
  assumes "isMounted s" and "pending s > 0" and "intervalId s = Some h"
    and "terminal (job_status r)"
  shows "issued (useAnalysis_run cap (useAnalysis_step cap s (Resolve r)) es) = issued s"
proof -
  from assms have "\<not> timerArmed (useAnalysis_step cap s (Resolve r))"
    and "issued (useAnalysis_step cap s (Resolve r)) = issued s"
    by (auto simp add: Let_def clearIntervalId_def terminal_def)
  then show ?thesis by (simp add: useAnalysis_cleared_run)
qed

subsection \<open>Invariants of the reachable states\<close>

lemma usePolling_inv_step:
  assumes "intervalRef s = Some h"
    and "timerArmed s \<longleftrightarrow> isMounted s \<and> \<not> shouldStopRef s"
  shows "intervalRef (usePolling_step c s e) = Some h \<and>
     (timerArmed (usePolling_step c s e)
        \<longleftrightarrow> isMounted (usePolling_step c s e) \<and> \<not> shouldStopRef (usePolling_step c s e))"
  using assms
  by (cases e) (auto simp add: Let_def clearIntervalRef_def issueProbe_def)

lemma usePolling_inv_run:
  "intervalRef (usePolling_run c usePolling_mount es) = Some 1 \<and>
   (timerArmed (usePolling_run c usePolling_mount es)
      \<longleftrightarrow> isMounted (usePolling_run c usePolling_mount es)
          \<and> \<not> shouldStopRef (usePolling_run c usePolling_mount es))"
proof (induction es rule: rev_induct)
  case Nil
  show ?case
    by (simp add: usePolling_run_Nil usePolling_mount_def issueProbe_def Let_def)
next
  case (snoc e es)
  from usePolling_inv_step [OF conjunct1 [OF snoc.IH] conjunct2 [OF snoc.IH], of c e]
  show ?case by (simp only: usePolling_run_snoc)
qed

lemma usePolling_tick_armed:
  assumes "timerArmed s" and "\<not> shouldStopRef s"
  shows "pending (usePolling_step c s Tick) = pending s + 1"
    and "issued (usePolling_step c s Tick) = (ticks s + 1) # issued s"
    and "ticks (usePolling_step c s Tick) = ticks s + 1"
  using assms by (simp_all add: Let_def issueProbe_def)

lemma usePolling_tick_unarmed:
  "\<not> timerArmed s \<Longrightarrow> usePolling_step c s Tick = s"
  by simp

lemma usePolling_step_stop:
  "shouldStopRef (usePolling_step c s e)
     \<longleftrightarrow> shouldStopRef s \<or> (isMounted s \<and> pending s > 0 \<and> stopsPolling c e)"
  by (cases e) (auto simp add: Let_def clearIntervalRef_def issueProbe_def split: option.splits)

lemma usePolling_step_mounted:
  "isMounted (usePolling_step c s e) \<longleftrightarrow> isMounted s \<and> e \<noteq> Unmount"
  by (cases e) (auto simp add: Let_def clearIntervalRef_def issueProbe_def split: option.splits)

lemma usePolling_step_not_tick:
  "e \<noteq> Tick \<Longrightarrow>
     issued (usePolling_step c s e) = issued s \<and> pending (usePolling_step c s e) \<le> pending s"
  by (cases e) (auto simp add: Let_def clearIntervalRef_def split: option.splits)

lemma usePolling_unarmed_step:
  "\<not> timerArmed s \<Longrightarrow> \<not> timerArmed (usePolling_step c s e)"
  by (cases e) (auto simp add: Let_def clearIntervalRef_def split: option.splits)

lemma usePolling_unarmed_run:
  "\<not> timerArmed s \<Longrightarrow> \<not> timerArmed (usePolling_run c s es)"
proof (induction es arbitrary: s)
  case Nil
  then show ?case by (simp add: usePolling_run_Nil)
next
  case (Cons e es)
  from Cons.prems have "\<not> timerArmed (usePolling_step c s e)"
    by (rule usePolling_unarmed_step)
  then have "\<not> timerArmed (usePolling_run c (usePolling_step c s e) es)"
    by (rule Cons.IH)
  then show ?case by (simp add: usePolling_run_Cons)
qed

lemma usePolling_reject_more:
  assumes "isMounted s" and "pending s > 0" and "intervalRef s = Some h"
  shows "\<not> timerArmed (usePolling_step c s (Reject e))"
    and "\<not> isLoading (usePolling_step c s (Reject e))"
    and "isMounted (usePolling_step c s (Reject e))"
  using assms by (simp_all add: Let_def clearIntervalRef_def)

lemma usePolling_resolve_resets_error:
  assumes "isMounted s" and "pending s > 0"
  shows "error (usePolling_step c s (Resolve r)) = None"
  using assms by (simp add: Let_def clearIntervalRef_def split: option.splits)

lemma pending_update_self:
  "pending (s :: 'h Hook_scheme) = 0 \<Longrightarrow> s\<lparr>pending := pending s - 1\<rparr> = s"
proof -
  assume z: "pending s = 0"
  have "s\<lparr>pending := pending s - 1\<rparr> = s\<lparr>pending := pending s\<rparr>"
    by (simp add: z)
  also have "\<dots> = s" by simp
  finally show ?thesis .
qed

lemma usePolling_reject_unmounted:
  assumes "\<not> isMounted s"
  shows "usePolling_step c s (Reject e) = s\<lparr>pending := pending s - 1\<rparr>"
proof (cases "pending s = 0")
  case True
  then have a: "usePolling_step c s (Reject e) = s" by simp
  from True have b: "s\<lparr>pending := pending s - 1\<rparr> = s" by (rule pending_update_self)
  from a b show ?thesis by (simp only:)
next
  case False
  with assms show ?thesis by (simp add: Let_def)
qed

lemma useAnalysis_mount_effect:
  "useAnalysis_mount = useAnalysis_effect None True None"
  by (simp add: useAnalysis_mount_def useAnalysis_effect_def)

lemma useAnalysis_inv_step:
  assumes "intervalId s = Some h" and "timerArmed s \<longrightarrow> isMounted s"
  shows "intervalId (useAnalysis_step cap s e) = Some h \<and>
     (timerArmed (useAnalysis_step cap s e) \<longrightarrow> isMounted (useAnalysis_step cap s e))"
  using assms
  by (cases e) (auto simp add: Let_def clearIntervalId_def issueProbe_def)

lemma useAnalysis_inv_run:
  "intervalId (useAnalysis_run cap (useAnalysis_effect st0 l er) es) = Some 1 \<and>
   (timerArmed (useAnalysis_run cap (useAnalysis_effect st0 l er) es)
      \<longrightarrow> isMounted (useAnalysis_run cap (useAnalysis_effect st0 l er) es))"
proof (induction es rule: rev_induct)
  case Nil
  show ?case
    by (simp add: useAnalysis_run_Nil useAnalysis_effect_def issueProbe_def Let_def)
next
  case (snoc e es)
  from useAnalysis_inv_step [OF conjunct1 [OF snoc.IH] conjunct2 [OF snoc.IH], of cap e]
  show ?case by (simp add: useAnalysis_run_snoc)
qed

lemma useAnalysis_tick_armed:
  assumes "timerArmed s" and "isMounted s" and "\<not> terminal (job_status st)"
  shows "pending (useAnalysis_step (Some st) s Tick) = pending s + 1"
    and "issued (useAnalysis_step (Some st) s Tick) = (ticks s + 1) # issued s"
  using assms by (simp_all add: Let_def issueProbe_def terminal_def)

lemma useAnalysis_unarmed_run:
  "\<not> timerArmed s \<Longrightarrow> \<not> timerArmed (useAnalysis_run cap s es)"
proof (induction es arbitrary: s)
  case Nil
  then show ?case by (simp add: useAnalysis_run_Nil)
next
  case (Cons e es)
  from Cons.prems have "\<not> timerArmed (useAnalysis_step cap s e)"
    by (simp add: useAnalysis_cleared_step)
  then have "\<not> timerArmed (useAnalysis_run cap (useAnalysis_step cap s e) es)"
    by (rule Cons.IH)
  then show ?case by (simp add: useAnalysis_run_Cons)
qed

lemma useAnalysis_reject_more:
  assumes "isMounted s" and "pending s > 0" and "intervalId s = Some h"
  shows "\<not> isLoading (useAnalysis_step cap s (Reject e))"
    and "isMounted (useAnalysis_step cap s (Reject e))"
  using assms by (simp_all add: Let_def clearIntervalId_def)

lemma useAnalysis_resolve_resets_error:
  assumes "isMounted s" and "pending s > 0"
  shows "error (useAnalysis_step cap s (Resolve r)) = None"
  using assms by (simp add: Let_def clearIntervalId_def split: option.splits)

lemma useAnalysis_reject_unmounted:
  assumes "\<not> isMounted s"
  shows "useAnalysis_step cap s (Reject e) = s\<lparr>pending := pending s - 1\<rparr>"
proof (cases "pending s = 0")
  case True
  then have a: "useAnalysis_step cap s (Reject e) = s" by simp
  from True have b: "s\<lparr>pending := pending s - 1\<rparr> = s" by (rule pending_update_self)
  from a b show ?thesis by (simp only:)
next
  case False
  with assms show ?thesis by (simp add: Let_def)
qed

subsection \<open>The claims about polling\<close>

text \<open>
  Claim C1 says that while the latest observed status is Queued or Running the tracker
  issues a further probe when the interval elapses. On a first mount \<open>useAnalysis\<close> does
  not: the interval callback tests the \<open>status\<close> constant of the first render, which is
  null, so the only probe ever issued is the one of the effect body
  (\<open>useAnalysis_first_mount_single_probe\<close>). Here the first probe returns Queued and the
  timer fires twice: the hook is mounted, shows Queued, its timer is still set, no probe
  is in flight, and the only probe issued is the first one.
\<close>

theorem useAnalysis_first_mount_never_polls:
  "map_option job_status (statusState (useAnalysis_run None useAnalysis_mount
       [Resolve \<lparr>analysis_id = ''a1'', job_status = Queued\<rparr>, Tick, Tick])) = Some Queued \<and>
   isMounted (useAnalysis_run None useAnalysis_mount
       [Resolve \<lparr>analysis_id = ''a1'', job_status = Queued\<rparr>, Tick, Tick]) \<and>
   timerArmed (useAnalysis_run None useAnalysis_mount
       [Resolve \<lparr>analysis_id = ''a1'', job_status = Queued\<rparr>, Tick, Tick]) \<and>
   ticks (useAnalysis_run None useAnalysis_mount
       [Resolve \<lparr>analysis_id = ''a1'', job_status = Queued\<rparr>, Tick, Tick]) = 2 \<and>
   pending (useAnalysis_run None useAnalysis_mount
       [Resolve \<lparr>analysis_id = ''a1'', job_status = Queued\<rparr>, Tick, Tick]) = 0 \<and>
   issued (useAnalysis_run None useAnalysis_mount
       [Resolve \<lparr>analysis_id = ''a1'', job_status = Queued\<rparr>, Tick, Tick]) = [0]"
  by (simp add: useAnalysis_run_def useAnalysis_mount_def issueProbe_def Let_def)

text \<open>
  Claim C2, as stated: a polling handle never has two probes in flight, the next probe
  being scheduled one interval after the previous one completes. It fails in
  \<open>usePolling\<close>: when the timer fires before the first probe has completed, a second
  probe is issued and two are in flight.
\<close>

theorem single_flight_counterexample:
  "pending (usePolling_run (\<lambda>r :: AnalysisStatusResponse. terminal (job_status r)) usePolling_mount [Tick]) = 2 \<and>
   issued (usePolling_run (\<lambda>r :: AnalysisStatusResponse. terminal (job_status r)) usePolling_mount [Tick]) = [1, 0]"
  by (simp add: usePolling_run_def usePolling_mount_def issueProbe_def Let_def)

text \<open>
  Claim C2, amended. In \<open>usePolling\<close>, in every state \<open>s\<close> the hook can reach: the interval
  timer set at mount is armed exactly while the hook is mounted and not stopped; every
  firing of the armed timer issues one probe, whatever the number of probes in flight,
  and a firing that finds a probe in flight leaves at least two in flight; once the
  timer is cleared there is no firing; polling is stopped only by a result that meets
  the stop condition or by a failure, handled while mounted, and the hook is unmounted
  only by the cleanup; a completion takes one probe out of flight, and no event but a
  firing issues a probe. So after \<open>n\<close> firings with no completion \<open>n + 1\<close> probes are in
  flight, issued at the firings \<open>0, ..., n\<close>; and if every firing of a run finds no probe
  in flight, at most one probe is in flight at every point of the run. \<open>useAnalysis\<close>
  schedules in the same way, with no test of the probes in flight: when the status its
  effect captured is present and not terminal, every firing of its armed timer issues one
  probe.
\<close>

theorem usePolling_probes_follow_timer:
  assumes "s = usePolling_run c usePolling_mount es"
  shows "(timerArmed s \<longleftrightarrow> isMounted s \<and> \<not> shouldStopRef s) \<and>
   (timerArmed s \<longrightarrow>
      pending (usePolling_step c s Tick) = pending s + 1 \<and>
      issued (usePolling_step c s Tick) = (ticks s + 1) # issued s \<and>
      ticks (usePolling_step c s Tick) = ticks s + 1) \<and>
   (timerArmed s \<and> pending s \<ge> 1 \<longrightarrow> pending (usePolling_step c s Tick) \<ge> 2) \<and>
   (\<not> timerArmed s \<longrightarrow> usePolling_step c s Tick = s) \<and>
   (shouldStopRef (usePolling_step c s e)
      \<longleftrightarrow> shouldStopRef s \<or> (isMounted s \<and> pending s > 0 \<and> stopsPolling c e)) \<and>
   (isMounted (usePolling_step c s e) \<longleftrightarrow> isMounted s \<and> e \<noteq> Unmount) \<and>
   (e \<noteq> Tick \<longrightarrow> issued (usePolling_step c s e) = issued s) \<and>
   pending (usePolling_step c s (Resolve r)) = pending s - 1 \<and>
   pending (usePolling_step c s (Reject x)) = pending s - 1 \<and>
   pending (usePolling_step c s Unmount) = pending s \<and>
   pending (usePolling_run c usePolling_mount (replicate n Tick)) = n + 1 \<and>
   issued (usePolling_run c usePolling_mount (replicate n Tick)) = rev [0..<n + 1] \<and>
   (ticksFindNoProbe c usePolling_mount es' \<longrightarrow>
      (\<forall>k. pending (usePolling_run c usePolling_mount (take k es')) \<le> 1)) \<and>
   (a = useAnalysis_run (Some st) (useAnalysis_effect init loading err) esa \<and> timerArmed a \<and>
    \<not> terminal (job_status st) \<longrightarrow>
      pending (useAnalysis_step (Some st) a Tick) = pending a + 1 \<and>
      issued (useAnalysis_step (Some st) a Tick) = (ticks a + 1) # issued a)"
proof -
  have inv: "timerArmed s \<longleftrightarrow> isMounted s \<and> \<not> shouldStopRef s"
    unfolding assms using usePolling_inv_run [of c es] by (rule conjunct2)
  have tick: "timerArmed s \<longrightarrow>
      pending (usePolling_step c s Tick) = pending s + 1 \<and>
      issued (usePolling_step c s Tick) = (ticks s + 1) # issued s \<and>
      ticks (usePolling_step c s Tick) = ticks s + 1"
  proof
    assume t: "timerArmed s"
    with inv have n: "\<not> shouldStopRef s" by simp
    from usePolling_tick_armed [OF t n, of c] show
      "pending (usePolling_step c s Tick) = pending s + 1 \<and>
       issued (usePolling_step c s Tick) = (ticks s + 1) # issued s \<and>
       ticks (usePolling_step c s Tick) = ticks s + 1"
      by simp
  qed
  have two: "timerArmed s \<and> pending s \<ge> 1 \<longrightarrow> pending (usePolling_step c s Tick) \<ge> 2"
    using tick by simp
  have off: "\<not> timerArmed s \<longrightarrow> usePolling_step c s Tick = s"
    by simp
  have stop: "shouldStopRef (usePolling_step c s e)
      \<longleftrightarrow> shouldStopRef s \<or> (isMounted s \<and> pending s > 0 \<and> stopsPolling c e)"
    by (rule usePolling_step_stop)
  have mnt: "isMounted (usePolling_step c s e) \<longleftrightarrow> isMounted s \<and> e \<noteq> Unmount"
    by (rule usePolling_step_mounted)
  have iss: "e \<noteq> Tick \<longrightarrow> issued (usePolling_step c s e) = issued s"
    using usePolling_step_not_tick [of e c s] by blast
  have p1: "pending (usePolling_step c s (Resolve r)) = pending s - 1"
    by (simp add: Let_def clearIntervalRef_def split: option.splits)
  have p2: "pending (usePolling_step c s (Reject x)) = pending s - 1"
    by (simp add: Let_def clearIntervalRef_def split: option.splits)
  have p3: "pending (usePolling_step c s Unmount) = pending s"
    by (simp add: clearIntervalRef_def split: option.splits)
  have m: "pending (usePolling_mount :: 'a Polling) \<le> 1"
    by (simp add: usePolling_mount_def issueProbe_def Let_def)
  have sf: "ticksFindNoProbe c usePolling_mount es' \<longrightarrow>
      (\<forall>k. pending (usePolling_run c usePolling_mount (take k es')) \<le> 1)"
    using usePolling_single_flight_run [OF m] by blast
  have n1: "pending (usePolling_run c usePolling_mount (replicate n Tick)) = n + 1"
    and n2: "issued (usePolling_run c usePolling_mount (replicate n Tick)) = rev [0..<n + 1]"
    using usePolling_ticks_only [of c n] by blast+
  have ua: "a = useAnalysis_run (Some st) (useAnalysis_effect init loading err) esa \<and> timerArmed a \<and>
      \<not> terminal (job_status st) \<longrightarrow>
        pending (useAnalysis_step (Some st) a Tick) = pending a + 1 \<and>
        issued (useAnalysis_step (Some st) a Tick) = (ticks a + 1) # issued a"
  proof
    assume h: "a = useAnalysis_run (Some st) (useAnalysis_effect init loading err) esa \<and> timerArmed a \<and>
      \<not> terminal (job_status st)"
    then have t: "timerArmed a" and nt: "\<not> terminal (job_status st)"
      and ae: "a = useAnalysis_run (Some st) (useAnalysis_effect init loading err) esa"
      by blast+
    have "timerArmed a \<longrightarrow> isMounted a"
      unfolding ae using useAnalysis_inv_run [of "Some st" init loading err esa]
      by (rule conjunct2)
    with t have im: "isMounted a" by simp
    from useAnalysis_tick_armed [OF t im nt] show
      "pending (useAnalysis_step (Some st) a Tick) = pending a + 1 \<and>
       issued (useAnalysis_step (Some st) a Tick) = (ticks a + 1) # issued a"
      by simp
  qed
  from inv tick two off stop mnt iss p1 p2 p3 n1 n2 sf ua show ?thesis
    by (intro conjI)
qed

theorem usePolling_probes_follow_timer_witness:
  "issued (usePolling_run (\<lambda>r :: AnalysisStatusResponse. terminal (job_status r)) usePolling_mount
     [Resolve \<lparr>analysis_id = ''a1'', job_status = Queued\<rparr>, Tick, Tick]) = [2, 1, 0] \<and>
   pending (usePolling_run (\<lambda>r :: AnalysisStatusResponse. terminal (job_status r)) usePolling_mount
     [Tick, Tick]) = 3 \<and>
   issued (usePolling_run (\<lambda>r :: AnalysisStatusResponse. terminal (job_status r)) usePolling_mount
     [Tick, Tick]) = [2, 1, 0] \<and>
   pending (usePolling_run (\<lambda>r :: AnalysisStatusResponse. terminal (job_status r)) usePolling_mount
     [Resolve \<lparr>analysis_id = ''a1'', job_status = Queued\<rparr>, Tick,
      Resolve \<lparr>analysis_id = ''a1'', job_status = Running\<rparr>, Tick]) \<le> 1 \<and>
   pending (useAnalysis_run (Some \<lparr>analysis_id = ''a0'', job_status = Running\<rparr>)
     (useAnalysis_effect (Some \<lparr>analysis_id = ''a0'', job_status = Running\<rparr>) False None)
     [Tick]) = 2"
proof -
  let ?c = "\<lambda>r :: AnalysisStatusResponse. terminal (job_status r)"
  let ?q = "\<lparr>analysis_id = ''a1'', job_status = Queued\<rparr>"
  let ?es = "[Resolve ?q, Tick, Resolve \<lparr>analysis_id = ''a1'', job_status = Running\<rparr>, Tick]"
  let ?s1 = "usePolling_run ?c usePolling_mount [Resolve ?q]"
  let ?s2 = "usePolling_run ?c usePolling_mount [Resolve ?q, Tick]"
  let ?st = "\<lparr>analysis_id = ''a0'', job_status = Running\<rparr>"
  let ?a = "useAnalysis_run (Some ?st) (useAnalysis_effect (Some ?st) False None) []"
  note t1 = usePolling_probes_follow_timer [where s = ?s1 and c = ?c and es = "[Resolve ?q]"
      and n = 2 and es' = ?es and a = ?a and st = ?st and init = "Some ?st" and loading = False
      and err = None and esa = "[]", OF refl]
  note t2 = usePolling_probes_follow_timer [where s = ?s2 and c = ?c
      and es = "[Resolve ?q, Tick]", OF refl]
  have a1: "timerArmed ?s1" and v1: "ticks ?s1 = 0" "issued ?s1 = [0]"
    by (simp_all add: usePolling_run_def usePolling_mount_def issueProbe_def Let_def terminal_def)
  have s2: "?s2 = usePolling_step ?c ?s1 Tick"
    by (simp add: usePolling_run_def)
  from t1 a1 have "issued (usePolling_step ?c ?s1 Tick) = (ticks ?s1 + 1) # issued ?s1"
    and "ticks (usePolling_step ?c ?s1 Tick) = ticks ?s1 + 1"
    by blast+
  with v1 s2 have v2: "issued ?s2 = [1, 0]" "ticks ?s2 = 1"
    by simp_all
  have a2: "timerArmed ?s2"
    by (simp add: usePolling_run_def usePolling_mount_def issueProbe_def Let_def terminal_def)
  from t2 a2 have "issued (usePolling_step ?c ?s2 Tick) = (ticks ?s2 + 1) # issued ?s2"
    by blast
  with v2 have "issued (usePolling_step ?c ?s2 Tick) = [2, 1, 0]"
    by simp
  moreover have "usePolling_run ?c usePolling_mount [Resolve ?q, Tick, Tick]
      = usePolling_step ?c ?s2 Tick"
    by (simp add: usePolling_run_def)
  ultimately have 1: "issued (usePolling_run ?c usePolling_mount [Resolve ?q, Tick, Tick])
      = [2, 1, 0]"
    by simp
  have r: "replicate 2 Tick = [Tick, Tick :: AnalysisStatusResponse event]"
    by (simp add: numeral_2_eq_2)
  have u: "rev [0..<2 + 1] = [2, 1, 0 :: nat]"
    by (simp add: upt_rec)
  from t1 have n1: "pending (usePolling_run ?c usePolling_mount (replicate 2 Tick)) = 2 + 1"
    and n2: "issued (usePolling_run ?c usePolling_mount (replicate 2 Tick)) = rev [0..<2 + 1]"
    by blast+
  from n1 have 2: "pending (usePolling_run ?c usePolling_mount [Tick, Tick]) = 3"
    by (simp add: r)
  from n2 have 3: "issued (usePolling_run ?c usePolling_mount [Tick, Tick]) = [2, 1, 0]"
    by (simp only: r u)
  have f: "ticksFindNoProbe ?c usePolling_mount ?es"
    by (simp add: usePolling_mount_def issueProbe_def Let_def terminal_def)
  from t1 f have "\<forall>k. pending (usePolling_run ?c usePolling_mount (take k ?es)) \<le> 1"
    by blast
  then have "pending (usePolling_run ?c usePolling_mount (take 4 ?es)) \<le> 1"
    by (rule spec)
  then have 4: "pending (usePolling_run ?c usePolling_mount ?es) \<le> 1"
    by simp
  have h: "?a = useAnalysis_run (Some ?st) (useAnalysis_effect (Some ?st) False None) [] \<and>
      timerArmed ?a \<and> \<not> terminal (job_status ?st)"
    by (simp add: useAnalysis_run_def useAnalysis_effect_def issueProbe_def Let_def terminal_def)
  from t1 h have "pending (useAnalysis_step (Some ?st) ?a Tick) = pending ?a + 1"
    by blast
  moreover have "pending ?a = 1"
    by (simp add: useAnalysis_run_def useAnalysis_effect_def issueProbe_def Let_def)
  moreover have "useAnalysis_run (Some ?st) (useAnalysis_effect (Some ?st) False None) [Tick]
      = useAnalysis_step (Some ?st) ?a Tick"
    by (simp add: useAnalysis_run_def)
  ultimately have 5: "pending (useAnalysis_run (Some ?st)
      (useAnalysis_effect (Some ?st) False None) [Tick]) = 2"
    by simp
  from 1 2 3 4 5 show ?thesis by blast
qed

text \<open>
  Claim C9, as stated: when a probe fails the error is surfaced once as a terminal
  string, no further probe is issued and there is no retry. The error is not terminal in
  \<open>usePolling\<close>: with two probes in flight, the failure of one sets the error and the later
  success of the other resets it to null. And a failure that arrives after the cleanup
  of the effect is discarded: no error is stored.
\<close>

theorem probe_failure_counterexample:
  "error (usePolling_run (\<lambda>r :: AnalysisStatusResponse. terminal (job_status r)) usePolling_mount
       [Tick, Reject (Some ''Network error: Could not reach server'')])
     = Some ''Network error: Could not reach server'' \<and>
   error (usePolling_run (\<lambda>r :: AnalysisStatusResponse. terminal (job_status r)) usePolling_mount
       [Tick, Reject (Some ''Network error: Could not reach server''),
        Resolve \<lparr>analysis_id = ''a1'', job_status = Running\<rparr>]) = None \<and>
   error (usePolling_run (\<lambda>r :: AnalysisStatusResponse. terminal (job_status r)) usePolling_mount
       [Unmount, Reject (Some ''Network error: Could not reach server'')]) = None"
  by (simp add: usePolling_run_def usePolling_mount_def issueProbe_def clearIntervalRef_def
      Let_def terminal_def)

text \<open>
  Claim C9, amended. In \<open>usePolling\<close> and in \<open>useAnalysis\<close> alike, in every state the hook
  can reach: when a probe fails while the hook is mounted, the message of the error (or
  the hook's fixed text when the thrown value is not an \<open>Error\<close>) is stored as the hook's
  error string and loading ends; the interval is cleared (and \<open>usePolling\<close> is marked
  stopped) and stays cleared; and no further probe is ever issued for that handle,
  whatever happens afterwards, so the failed probe is not retried. When the failed probe
  was the only one in flight, the stored error stays in place for good; when another
  probe was still in flight, its success resets the error to null. A failure that
  arrives when the hook is no longer mounted is discarded: it changes nothing but the
  count of probes in flight.
\<close>

theorem probe_failure_stops_polling:
  assumes "p = usePolling_run c usePolling_mount es0"
    and "a = useAnalysis_run cap (useAnalysis_effect init loading err) esa"
  shows "(isMounted p \<and> pending p > 0 \<longrightarrow>
      error (usePolling_step c p (Reject e))
        = Some (case e of Some message \<Rightarrow> message | None \<Rightarrow> ''Polling error'') \<and>
      \<not> isLoading (usePolling_step c p (Reject e)) \<and>
      shouldStopRef (usePolling_step c p (Reject e)) \<and>
      \<not> timerArmed (usePolling_run c (usePolling_step c p (Reject e)) es) \<and>
      issued (usePolling_run c (usePolling_step c p (Reject e)) es) = issued p \<and>
      (pending p = 1 \<longrightarrow>
         error (usePolling_run c (usePolling_step c p (Reject e)) es)
           = Some (case e of Some message \<Rightarrow> message | None \<Rightarrow> ''Polling error'')) \<and>
      (pending p > 1 \<longrightarrow>
         error (usePolling_step c (usePolling_step c p (Reject e)) (Resolve r)) = None)) \<and>
   (\<not> isMounted p \<longrightarrow> usePolling_step c p (Reject e) = p\<lparr>pending := pending p - 1\<rparr>) \<and>
   (isMounted a \<and> pending a > 0 \<longrightarrow>
      error (useAnalysis_step cap a (Reject e))
        = Some (case e of Some message \<Rightarrow> message | None \<Rightarrow> ''Failed to fetch analysis'') \<and>
      \<not> isLoading (useAnalysis_step cap a (Reject e)) \<and>
      \<not> timerArmed (useAnalysis_run cap (useAnalysis_step cap a (Reject e)) es') \<and>
      issued (useAnalysis_run cap (useAnalysis_step cap a (Reject e)) es') = issued a \<and>
      (pending a = 1 \<longrightarrow>
         error (useAnalysis_run cap (useAnalysis_step cap a (Reject e)) es')
           = Some (case e of Some message \<Rightarrow> message
                   | None \<Rightarrow> ''Failed to fetch analysis'')) \<and>
      (pending a > 1 \<longrightarrow>
         error (useAnalysis_step cap (useAnalysis_step cap a (Reject e)) (Resolve r')) = None)) \<and>
   (\<not> isMounted a \<longrightarrow> useAnalysis_step cap a (Reject e) = a\<lparr>pending := pending a - 1\<rparr>)"
proof -
  let ?p' = "usePolling_step c p (Reject e)"
  let ?a' = "useAnalysis_step cap a (Reject e)"
  have ip: "intervalRef p = Some 1"
    unfolding assms(1) using usePolling_inv_run [of c es0] by (rule conjunct1)
  have ia: "intervalId a = Some 1"
    unfolding assms(2) using useAnalysis_inv_run [of cap init loading err esa]
    by (rule conjunct1)
  have P: "isMounted p \<and> pending p > 0 \<longrightarrow>
      error ?p' = Some (case e of Some message \<Rightarrow> message | None \<Rightarrow> ''Polling error'') \<and>
      \<not> isLoading ?p' \<and> shouldStopRef ?p' \<and>
      \<not> timerArmed (usePolling_run c ?p' es) \<and>
      issued (usePolling_run c ?p' es) = issued p \<and>
      (pending p = 1 \<longrightarrow>
         error (usePolling_run c ?p' es)
           = Some (case e of Some message \<Rightarrow> message | None \<Rightarrow> ''Polling error'')) \<and>
      (pending p > 1 \<longrightarrow> error (usePolling_step c ?p' (Resolve r)) = None)"
  proof
    assume h: "isMounted p \<and> pending p > 0"
    then have m: "isMounted p" and pp: "0 < pending p" by simp_all
    have er: "error ?p' = Some (case e of Some message \<Rightarrow> message | None \<Rightarrow> ''Polling error'')"
      using m pp by (rule usePolling_reject(1))
    have st: "shouldStopRef ?p'" using m pp by (rule usePolling_reject(2))
    have ld: "\<not> isLoading ?p'" using m pp ip by (rule usePolling_reject_more(2))
    have mt: "isMounted ?p'" using m pp ip by (rule usePolling_reject_more(3))
    have "\<not> timerArmed ?p'" using m pp ip by (rule usePolling_reject_more(1))
    then have ta: "\<not> timerArmed (usePolling_run c ?p' es)"
      by (rule usePolling_unarmed_run)
    have "issued (usePolling_run c ?p' es) = issued ?p'"
      using st by (rule usePolling_stopped_run)
    also have "\<dots> = issued p" using m pp by (rule usePolling_reject(3))
    finally have iss: "issued (usePolling_run c ?p' es) = issued p" .
    have pd: "pending ?p' = pending p - 1" using m pp by (rule usePolling_reject(4))
    have one: "pending p = 1 \<longrightarrow> error (usePolling_run c ?p' es)
        = Some (case e of Some message \<Rightarrow> message | None \<Rightarrow> ''Polling error'')"
    proof
      assume "pending p = 1"
      with pd have "pending ?p' = 0" by simp
      with st have "error (usePolling_run c ?p' es) = error ?p'"
        by (rule usePolling_quiet_run)
      with er show "error (usePolling_run c ?p' es)
          = Some (case e of Some message \<Rightarrow> message | None \<Rightarrow> ''Polling error'')"
        by simp
    qed
    have more: "pending p > 1 \<longrightarrow> error (usePolling_step c ?p' (Resolve r)) = None"
    proof
      assume "pending p > 1"
      with pd have "pending ?p' > 0" by simp
      with mt show "error (usePolling_step c ?p' (Resolve r)) = None"
        by (rule usePolling_resolve_resets_error)
    qed
    from er ld st ta iss one more show
      "error ?p' = Some (case e of Some message \<Rightarrow> message | None \<Rightarrow> ''Polling error'') \<and>
       \<not> isLoading ?p' \<and> shouldStopRef ?p' \<and>
       \<not> timerArmed (usePolling_run c ?p' es) \<and>
       issued (usePolling_run c ?p' es) = issued p \<and>
       (pending p = 1 \<longrightarrow>
          error (usePolling_run c ?p' es)
            = Some (case e of Some message \<Rightarrow> message | None \<Rightarrow> ''Polling error'')) \<and>
       (pending p > 1 \<longrightarrow> error (usePolling_step c ?p' (Resolve r)) = None)"
      by (intro conjI)
  qed
  have PU: "\<not> isMounted p \<longrightarrow> usePolling_step c p (Reject e) = p\<lparr>pending := pending p - 1\<rparr>"
    using usePolling_reject_unmounted by blast
  have A: "isMounted a \<and> pending a > 0 \<longrightarrow>
      error ?a' = Some (case e of Some message \<Rightarrow> message
                        | None \<Rightarrow> ''Failed to fetch analysis'') \<and>
      \<not> isLoading ?a' \<and>
      \<not> timerArmed (useAnalysis_run cap ?a' es') \<and>
      issued (useAnalysis_run cap ?a' es') = issued a \<and>
      (pending a = 1 \<longrightarrow>
         error (useAnalysis_run cap ?a' es')
           = Some (case e of Some message \<Rightarrow> message
                   | None \<Rightarrow> ''Failed to fetch analysis'')) \<and>
      (pending a > 1 \<longrightarrow> error (useAnalysis_step cap ?a' (Resolve r')) = None)"
  proof
    assume h: "isMounted a \<and> pending a > 0"
    then have m: "isMounted a" and pp: "0 < pending a" by simp_all
    have er: "error ?a' = Some (case e of Some message \<Rightarrow> message
                                | None \<Rightarrow> ''Failed to fetch analysis'')"
      using m pp ia by (rule useAnalysis_reject(1))
    have ld: "\<not> isLoading ?a'" using m pp ia by (rule useAnalysis_reject_more(1))
    have mt: "isMounted ?a'" using m pp ia by (rule useAnalysis_reject_more(2))
    have cl: "\<not> timerArmed ?a'" using m pp ia by (rule useAnalysis_reject(2))
    then have ta: "\<not> timerArmed (useAnalysis_run cap ?a' es')"
      by (rule useAnalysis_unarmed_run)
    have "issued (useAnalysis_run cap ?a' es') = issued ?a'"
      using cl by (rule useAnalysis_cleared_run)
    also have "\<dots> = issued a" using m pp ia by (rule useAnalysis_reject(3))
    finally have iss: "issued (useAnalysis_run cap ?a' es') = issued a" .
    have pd: "pending ?a' = pending a - 1" using m pp ia by (rule useAnalysis_reject(4))
    have one: "pending a = 1 \<longrightarrow> error (useAnalysis_run cap ?a' es')
        = Some (case e of Some message \<Rightarrow> message | None \<Rightarrow> ''Failed to fetch analysis'')"
    proof
      assume "pending a = 1"
      with pd have "pending ?a' = 0" by simp
      with cl have "error (useAnalysis_run cap ?a' es') = error ?a'"
        by (rule useAnalysis_quiet_run)
      with er show "error (useAnalysis_run cap ?a' es')
          = Some (case e of Some message \<Rightarrow> message | None \<Rightarrow> ''Failed to fetch analysis'')"
        by simp
    qed
    have more: "pending a > 1 \<longrightarrow> error (useAnalysis_step cap ?a' (Resolve r')) = None"
    proof
      assume "pending a > 1"
      with pd have "pending ?a' > 0" by simp
      with mt show "error (useAnalysis_step cap ?a' (Resolve r')) = None"
        by (rule useAnalysis_resolve_resets_error)
    qed
    from er ld ta iss one more show
      "error ?a' = Some (case e of Some message \<Rightarrow> message
                         | None \<Rightarrow> ''Failed to fetch analysis'') \<and>
       \<not> isLoading ?a' \<and>
       \<not> timerArmed (useAnalysis_run cap ?a' es') \<and>
       issued (useAnalysis_run cap ?a' es') = issued a \<and>
       (pending a = 1 \<longrightarrow>
          error (useAnalysis_run cap ?a' es')
            = Some (case e of Some message \<Rightarrow> message
                    | None \<Rightarrow> ''Failed to fetch analysis'')) \<and>
       (pending a > 1 \<longrightarrow> error (useAnalysis_step cap ?a' (Resolve r')) = None)"
      by (intro conjI)
  qed
  have AU: "\<not> isMounted a \<longrightarrow> useAnalysis_step cap a (Reject e) = a\<lparr>pending := pending a - 1\<rparr>"
    using useAnalysis_reject_unmounted by blast
  from P PU A AU show ?thesis by (intro conjI)
qed

theorem probe_failure_stops_polling_witness:
  "error (usePolling_run (\<lambda>r :: AnalysisStatusResponse. terminal (job_status r)) usePolling_mount
       [Reject (Some ''Network error: Could not reach server''), Tick, Tick])
     = Some ''Network error: Could not reach server'' \<and>
   issued (usePolling_run (\<lambda>r :: AnalysisStatusResponse. terminal (job_status r)) usePolling_mount
       [Reject (Some ''Network error: Could not reach server''), Tick, Tick]) = [0] \<and>
   \<not> timerArmed (usePolling_run (\<lambda>r :: AnalysisStatusResponse. terminal (job_status r))
       usePolling_mount [Reject (Some ''Network error: Could not reach server''), Tick, Tick]) \<and>
   error (useAnalysis_run None useAnalysis_mount [Reject None, Tick, Unmount])
     = Some ''Failed to fetch analysis'' \<and>
   issued (useAnalysis_run None useAnalysis_mount [Reject None, Tick, Unmount]) = [0] \<and>
   \<not> timerArmed (useAnalysis_run None useAnalysis_mount [Reject None, Tick, Unmount])"
proof -
  let ?c = "\<lambda>r :: AnalysisStatusResponse. terminal (job_status r)"
  let ?e = "Some ''Network error: Could not reach server''"
  let ?p = "usePolling_run ?c usePolling_mount []"
  let ?a = "useAnalysis_run None (useAnalysis_effect None True None) []"
  note t = probe_failure_stops_polling [where p = ?p and c = ?c and ?es0.0 = "[]"
      and a = ?a and cap = None and init = None and loading = True and err = None
      and esa = "[]" and e = ?e and es = "[Tick, Tick]", OF refl refl]
  note u = probe_failure_stops_polling [where p = ?p and c = ?c and ?es0.0 = "[]"
      and a = ?a and cap = None and init = None and loading = True and err = None
      and esa = "[]" and e = None and es' = "[Tick, Unmount]", OF refl refl]
  have hp: "isMounted ?p \<and> pending ?p > 0" and p1: "pending ?p = 1" and pi: "issued ?p = [0]"
    by (simp_all add: usePolling_run_def usePolling_mount_def issueProbe_def Let_def)
  have ha: "isMounted ?a \<and> pending ?a > 0" and a1: "pending ?a = 1" and ai: "issued ?a = [0]"
    by (simp_all add: useAnalysis_run_def useAnalysis_effect_def issueProbe_def Let_def)
  have pc: "usePolling_run ?c usePolling_mount [Reject ?e, Tick, Tick]
     = usePolling_run ?c (usePolling_step ?c ?p (Reject ?e)) [Tick, Tick]"
    by (simp add: usePolling_run_def)
  have ac: "useAnalysis_run None useAnalysis_mount [Reject None, Tick, Unmount]
     = useAnalysis_run None (useAnalysis_step None ?a (Reject None)) [Tick, Unmount]"
    by (simp add: useAnalysis_run_def useAnalysis_mount_effect)
  from t hp p1 have
    "error (usePolling_run ?c (usePolling_step ?c ?p (Reject ?e)) [Tick, Tick])
       = Some (case ?e of Some message \<Rightarrow> message | None \<Rightarrow> ''Polling error'')"
    and "issued (usePolling_run ?c (usePolling_step ?c ?p (Reject ?e)) [Tick, Tick]) = issued ?p"
    and "\<not> timerArmed (usePolling_run ?c (usePolling_step ?c ?p (Reject ?e)) [Tick, Tick])"
    by blast+
  with pi have 1: "error (usePolling_run ?c usePolling_mount [Reject ?e, Tick, Tick]) = ?e"
    and 2: "issued (usePolling_run ?c usePolling_mount [Reject ?e, Tick, Tick]) = [0]"
    and 3: "\<not> timerArmed (usePolling_run ?c usePolling_mount [Reject ?e, Tick, Tick])"
    unfolding pc by simp_all
  from u ha a1 have
    "error (useAnalysis_run None (useAnalysis_step None ?a (Reject None)) [Tick, Unmount])
       = Some (case None of Some message \<Rightarrow> message | None \<Rightarrow> ''Failed to fetch analysis'')"
    and "issued (useAnalysis_run None (useAnalysis_step None ?a (Reject None)) [Tick, Unmount])
       = issued ?a"
    and "\<not> timerArmed (useAnalysis_run None (useAnalysis_step None ?a (Reject None))
       [Tick, Unmount])"
    by blast+
  with ai have 4: "error (useAnalysis_run None useAnalysis_mount [Reject None, Tick, Unmount])
      = Some ''Failed to fetch analysis''"
    and 5: "issued (useAnalysis_run None useAnalysis_mount [Reject None, Tick, Unmount]) = [0]"
    and 6: "\<not> timerArmed (useAnalysis_run None useAnalysis_mount [Reject None, Tick, Unmount])"
    unfolding ac by simp_all
  from 1 2 3 4 5 6 show ?thesis by blast
qed

end
